theory Spec2Isabelle
  imports Main
begin

section \<open>Python strings\<close>

text \<open>
  A Python \<open>str\<close> is modelled as a \<open>string\<close>, each \<open>char\<close> standing for one code point
  below 256 (the Latin-1 range), so \<open>length\<close> is Python's \<open>len\<close> on such text.  The
  character classes below are Python's, restricted to that range.
\<close>

definition is_space :: "char \<Rightarrow> bool" where
  \<comment> \<open>\<open>str.isspace\<close>, also the class \<open>\s\<close> of \<open>re\<close> and what \<open>str.strip()\<close> removes\<close>
  "is_space c = (let n = (of_char c :: nat) in
     (9 \<le> n \<and> n \<le> 13) \<or> (28 \<le> n \<and> n \<le> 32) \<or> n = 133 \<or> n = 160)"

definition is_digit :: "char \<Rightarrow> bool" where
  \<comment> \<open>the class \<open>\d\<close> of \<open>re\<close>\<close>
  "is_digit c = (let n = (of_char c :: nat) in 48 \<le> n \<and> n \<le> 57)"

definition is_upper_AZ :: "char \<Rightarrow> bool" where
  \<comment> \<open>the class \<open>[A-Z]\<close>\<close>
  "is_upper_AZ c = (let n = (of_char c :: nat) in 65 \<le> n \<and> n \<le> 90)"

definition lower_char :: "char \<Rightarrow> char" where
  "lower_char c = (let n = (of_char c :: nat) in
     if (65 \<le> n \<and> n \<le> 90) \<or> (192 \<le> n \<and> n \<le> 222 \<and> n \<noteq> 215)
     then char_of (n + 32) else c)"

definition lower :: "string \<Rightarrow> string" where
  \<comment> \<open>\<open>str.lower()\<close>\<close>
  "lower s = map lower_char s"

definition strip :: "string \<Rightarrow> string" where
  \<comment> \<open>\<open>str.strip()\<close>: leading and trailing whitespace removed\<close>
  "strip s = rev (dropWhile is_space (rev (dropWhile is_space s)))"

definition startswith :: "string \<Rightarrow> string \<Rightarrow> bool" where
  \<comment> \<open>\<open>s.startswith(p)\<close>\<close>
  "startswith s p = (take (length p) s = p)"

primrec str_in :: "string \<Rightarrow> string \<Rightarrow> bool" where
  \<comment> \<open>\<open>sub in s\<close>: \<open>sub\<close> occurs in \<open>s\<close> as a contiguous substring\<close>
  "str_in sub [] = (sub = [])"
| "str_in sub (c # cs) = (startswith (c # cs) sub \<or> str_in sub cs)"

fun str_replace :: "string \<Rightarrow> string \<Rightarrow> string \<Rightarrow> string" where
  \<comment> \<open>\<open>s.replace(old, new)\<close> for a non-empty \<open>old\<close>: every occurrence, left to right\<close>
  "str_replace old new [] = []"
| "str_replace old new (c # cs) =
     (if old \<noteq> [] \<and> startswith (c # cs) old
      then new @ str_replace old new (drop (length old - 1) cs)
      else c # str_replace old new cs)"

fun str_join :: "string \<Rightarrow> string list \<Rightarrow> string" where
  \<comment> \<open>\<open>sep.join(xs)\<close>\<close>
  "str_join sep [] = []"
| "str_join sep [x] = x"
| "str_join sep (x # y # ys) = x @ sep @ str_join sep (y # ys)"

section \<open>The fragment of Python's \<open>re\<close> the scripts use\<close>

text \<open>
  Every pattern of the scripts is a sequence of single-character classes, each taken once
  or under a greedy \<open>?\<close>, \<open>*\<close> or \<open>+\<close>.  The matcher is the backtracking one of \<open>re\<close>: a
  quantified class first takes as many characters as it can and gives them back one at a
  time while the rest of the pattern fails.
\<close>

datatype quant = One | Opt | Star | Plus

type_synonym atom = "(char \<Rightarrow> bool) \<times> quant"

fun backtrack :: "(nat \<Rightarrow> 'a option) \<Rightarrow> nat \<Rightarrow> nat \<Rightarrow> 'a option" where
  \<comment> \<open>try the counts \<open>n, n - 1, ..., lo\<close> in this order, the first success wins\<close>
  "backtrack k lo 0 = (if lo = 0 then k 0 else None)"
| "backtrack k lo (Suc n) =
     (if Suc n < lo then None
      else (case k (Suc n) of Some r \<Rightarrow> Some r | None \<Rightarrow> backtrack k lo n))"

primrec match_here :: "atom list \<Rightarrow> string \<Rightarrow> string list option" where
  \<comment> \<open>match the pattern at the start of the text; the result lists what each atom consumed\<close>
  "match_here [] s = Some []"
| "match_here (a # as) s =
     (let n = length (takeWhile (fst a) s);
          lo = (case snd a of One \<Rightarrow> 1 | Opt \<Rightarrow> 0 | Star \<Rightarrow> 0 | Plus \<Rightarrow> 1);
          hi = (case snd a of One \<Rightarrow> min 1 n | Opt \<Rightarrow> min 1 n | Star \<Rightarrow> n | Plus \<Rightarrow> n)
      in backtrack (\<lambda>k. map_option ((#) (take k s)) (match_here as (drop k s))) lo hi)"

primrec re_search :: "atom list \<Rightarrow> string \<Rightarrow> (string \<times> string list) option" where
  \<comment> \<open>\<open>re.search\<close>: the leftmost match; the result is the text before it and the pieces\<close>
  "re_search as [] = map_option (Pair []) (match_here as [])"
| "re_search as (c # cs) =
     (case match_here as (c # cs) of
        Some ps \<Rightarrow> Some ([], ps)
      | None \<Rightarrow> map_option (\<lambda>(pre, ps). (c # pre, ps)) (re_search as cs))"

fun re_sub :: "atom list \<Rightarrow> string \<Rightarrow> string \<Rightarrow> string" where
  \<comment> \<open>\<open>re.sub(pattern, repl, s)\<close>: every non-overlapping match replaced, left to right\<close>
  "re_sub as repl [] = (case match_here as [] of Some ps \<Rightarrow> repl | None \<Rightarrow> [])"
| "re_sub as repl (c # cs) =
     (case match_here as (c # cs) of
        Some ps \<Rightarrow> repl @ (if concat ps = [] then c # re_sub as repl cs
                           else re_sub as repl (drop (length (concat ps) - 1) cs))
      | None \<Rightarrow> c # re_sub as repl cs)"

definition piece_ok :: "atom \<Rightarrow> string \<Rightarrow> bool" where
  \<comment> \<open>what an atom may consume: characters of its class, as many as its quantifier allows\<close>
  "piece_ok a p = ((\<forall>c \<in> set p. fst a c) \<and>
     (case snd a of One \<Rightarrow> length p = 1 | Opt \<Rightarrow> length p \<le> 1 | Star \<Rightarrow> True | Plus \<Rightarrow> p \<noteq> []))"

definition lit :: "string \<Rightarrow> atom list" where
  \<comment> \<open>a literal stretch of a pattern\<close>
  "lit s = map (\<lambda>c. ((\<lambda>d. d = c), One)) s"

definition RATING_PATTERN :: "atom list" where
  \<comment> \<open>\<open>(\d+\.?\d*)\s*out of\<close>; group 1 is the first three atoms\<close>
  "RATING_PATTERN =
     [(is_digit, Plus), ((\<lambda>c. c = CHR ''.''), Opt), (is_digit, Star), (is_space, Star)]
     @ lit ''out of''"

definition REVIEW_PATTERN :: "atom list" where
  \<comment> \<open>\<open>([\d,]+)\<close>; group 1 is the whole match\<close>
  "REVIEW_PATTERN = [((\<lambda>c. is_digit c \<or> c = CHR '',''), Plus)]"

definition THUMB_PATTERN :: "atom list" where
  \<comment> \<open>\<open>\._[A-Z]+\d+_\.\<close>\<close>
  "THUMB_PATTERN = lit ''._'' @ [(is_upper_AZ, Plus), (is_digit, Plus)] @ lit ''_.''"

section \<open>The requests/BeautifulSoup script\<close>

subsection \<open>The parsed document\<close>

text \<open>
  BeautifulSoup is a black box here: a parsed document answers a CSS selector with the
  matching tags in document order.  A tag carries its descendant text nodes, in document
  order, and its attributes.  None of these operations raises on a parsed document.
\<close>

record tag =
  strings :: "string list"
  attrs :: "string \<rightharpoonup> string"

type_synonym soup = "string \<Rightarrow> tag list"

definition select :: "soup \<Rightarrow> string \<Rightarrow> tag list" where
  \<comment> \<open>\<open>soup.select(selector)\<close>\<close>
  "select soup selector = soup selector"

definition select_one :: "soup \<Rightarrow> string \<Rightarrow> tag option" where
  \<comment> \<open>\<open>soup.select_one(selector)\<close>: the first match or \<open>None\<close>\<close>
  "select_one soup selector = (case soup selector of [] \<Rightarrow> None | t # _ \<Rightarrow> Some t)"

definition get_text :: "tag \<Rightarrow> string" where
  \<comment> \<open>\<open>element.get_text(strip=True)\<close>: every text node stripped, the empty ones dropped,
      the rest joined with the empty separator\<close>
  "get_text element = concat (filter (\<lambda>s. s \<noteq> []) (map strip (strings element)))"

definition get_attr :: "tag \<Rightarrow> string \<Rightarrow> string option" where
  \<comment> \<open>\<open>element.get(name)\<close>\<close>
  "get_attr element name = attrs element name"

definition SELECTORS :: "string \<rightharpoonup> string" where
  "SELECTORS = map_of
     [(''title'', ''#productTitle''),
      (''price'', ''span.a-price span.a-offscreen''),
      (''avg_rating'', ''span.a-icon-alt''),
      (''review_count'', ''#acrCustomerReviewText''),
      (''availability'', ''#availability span''),
      (''description'', ''#productDescription p''),
      (''features'', ''#feature-bullets ul li span.a-list-item''),
      (''images'', ''#imgTagWrapperId img''),
      (''category'', ''#wayfinding-breadcrumbs_feature_div ul li a''),
      (''ships_from'', ''#tabular-buybox-truncate-0 span.tabular-buybox-text''),
      (''sold_by'', ''#tabular-buybox-truncate-1 span.tabular-buybox-text'')]"

definition selector :: "string \<Rightarrow> string" where
  \<comment> \<open>\<open>SELECTORS[key]\<close>, for the keys the scripts use, all of them present\<close>
  "selector key = the (SELECTORS key)"

definition THUMBNAIL_SELECTOR :: string where
  "THUMBNAIL_SELECTOR = ''#altImages img.a-dynamic-image''"

definition LARGE_TOKEN :: string where
  "LARGE_TOKEN = ''._AC_SL1500_.''"

subsection \<open>The extractors\<close>

definition extract_title :: "soup \<Rightarrow> string option" where
  "extract_title soup =
     (case select_one soup (selector ''title'') of
        Some element \<Rightarrow> Some (get_text element)
      | None \<Rightarrow> None)"

definition extract_price :: "soup \<Rightarrow> string option" where
  "extract_price soup =
     (case select_one soup (selector ''price'') of
        Some element \<Rightarrow> Some (get_text element)
      | None \<Rightarrow> None)"

definition rating_of_text :: "string \<Rightarrow> string option" where
  \<comment> \<open>\<open>match = re.search(r"(\d+\.?\d*)\s*out of", rating_text)\<close>, then \<open>match.group(1)\<close>
      when there is a match\<close>
  "rating_of_text rating_text =
     (case re_search RATING_PATTERN rating_text of
        Some (pre, ps) \<Rightarrow> Some (concat (take 3 ps))
      | None \<Rightarrow> None)"

definition extract_avg_rating :: "soup \<Rightarrow> string option" where
  "extract_avg_rating soup =
     (case select_one soup (selector ''avg_rating'') of
        Some element \<Rightarrow> rating_of_text (get_text element)
      | None \<Rightarrow> None)"

definition review_count_of_text :: "string \<Rightarrow> string option" where
  \<comment> \<open>\<open>match = re.search(r"([\d,]+)", review_text)\<close>, then
      \<open>match.group(1).replace(",", "")\<close> when there is a match\<close>
  "review_count_of_text review_text =
     (case re_search REVIEW_PATTERN review_text of
        Some (pre, ps) \<Rightarrow> Some (str_replace '','' [] (concat (take 1 ps)))
      | None \<Rightarrow> None)"

definition extract_review_count :: "soup \<Rightarrow> string option" where
  "extract_review_count soup =
     (case select_one soup (selector ''review_count'') of
        Some element \<Rightarrow> review_count_of_text (get_text element)
      | None \<Rightarrow> None)"

definition extract_availability :: "soup \<Rightarrow> string option" where
  "extract_availability soup =
     (case select_one soup (selector ''availability'') of
        Some element \<Rightarrow> Some (get_text element)
      | None \<Rightarrow> None)"

definition out_of_stock_keywords :: "string list" where
  "out_of_stock_keywords = [''out of stock'', ''unavailable'', ''currently unavailable'']"

definition out_of_stock_of :: "string option \<Rightarrow> bool" where
  \<comment> \<open>\<open>if availability: return any(keyword in availability.lower() ...)\<close>, else \<open>False\<close>;
      \<open>None\<close> and the empty string are falsy\<close>
  "out_of_stock_of availability =
     (case availability of
        Some a \<Rightarrow>
          (if a \<noteq> []
           then list_ex (\<lambda>keyword. str_in keyword (lower a)) out_of_stock_keywords
           else False)
      | None \<Rightarrow> False)"

definition extract_out_of_stock :: "soup \<Rightarrow> bool" where
  "extract_out_of_stock soup = out_of_stock_of (extract_availability soup)"

definition extract_description :: "soup \<Rightarrow> string option" where
  "extract_description soup =
     (case select_one soup (selector ''description'') of
        Some element \<Rightarrow> Some (get_text element)
      | None \<Rightarrow> None)"

definition keep_feature :: "string \<Rightarrow> bool" where
  \<comment> \<open>\<open>text and len(text) > 5\<close>\<close>
  "keep_feature text = (text \<noteq> [] \<and> length text > 5)"

primrec features_loop :: "tag list \<Rightarrow> string list \<Rightarrow> string list" where
  "features_loop [] features = features"
| "features_loop (element # elements) features =
     (let text = get_text element
      in features_loop elements (if keep_feature text then features @ [text] else features))"

definition extract_features :: "soup \<Rightarrow> string list" where
  "extract_features soup = features_loop (select soup (selector ''features'')) []"

definition py_or :: "string option \<Rightarrow> string option \<Rightarrow> string option" where
  \<comment> \<open>\<open>a or b\<close> on optional strings: \<open>a\<close> when it is truthy (neither \<open>None\<close> nor empty)\<close>
  "py_or a b = (case a of Some x \<Rightarrow> (if x \<noteq> [] then a else b) | None \<Rightarrow> b)"

definition append_if_http :: "string option \<Rightarrow> string list \<Rightarrow> string list" where
  \<comment> \<open>\<open>if img_url and img_url.startswith("http"): images.append(img_url)\<close>\<close>
  "append_if_http img_url images =
     (case img_url of
        Some u \<Rightarrow> (if u \<noteq> [] \<and> startswith u ''http'' then images @ [u] else images)
      | None \<Rightarrow> images)"

definition enlarge :: "string \<Rightarrow> string" where
  \<comment> \<open>\<open>re.sub(r"\._[A-Z]+\d+_\.", "._AC_SL1500_.", img_url)\<close>\<close>
  "enlarge img_url = re_sub THUMB_PATTERN LARGE_TOKEN img_url"

definition append_thumb :: "string option \<Rightarrow> string list \<Rightarrow> string list" where
  \<comment> \<open>the body of the thumbnail loop once \<open>src\<close> has been read\<close>
  "append_thumb img_url images =
     (case img_url of
        Some u \<Rightarrow>
          (if u \<noteq> [] \<and> startswith u ''http''
           then (let large_url = enlarge u
                 in if large_url \<notin> set images then images @ [large_url] else images)
           else images)
      | None \<Rightarrow> images)"

primrec thumbs_loop :: "tag list \<Rightarrow> string list \<Rightarrow> string list" where
  "thumbs_loop [] images = images"
| "thumbs_loop (thumb # thumbs) images =
     thumbs_loop thumbs (append_thumb (get_attr thumb ''src'') images)"

definition extract_images :: "soup \<Rightarrow> string list" where
  "extract_images soup =
     (let images =
        (case select_one soup (selector ''images'') of
           Some main_img \<Rightarrow>
             append_if_http
               (py_or (get_attr main_img ''data-old-hires'') (get_attr main_img ''src'')) []
         | None \<Rightarrow> [])
      in thumbs_loop (select soup THUMBNAIL_SELECTOR) images)"

definition extract_category :: "soup \<Rightarrow> string option" where
  "extract_category soup =
     (let elements = select soup (selector ''category'')
      in if elements \<noteq> [] then Some (str_join '' > '' (map get_text elements)) else None)"

definition extract_ships_from :: "soup \<Rightarrow> string option" where
  "extract_ships_from soup =
     (case select_one soup (selector ''ships_from'') of
        Some element \<Rightarrow> Some (get_text element)
      | None \<Rightarrow> None)"

definition extract_sold_by :: "soup \<Rightarrow> string option" where
  "extract_sold_by soup =
     (case select_one soup (selector ''sold_by'') of
        Some element \<Rightarrow> Some (get_text element)
      | None \<Rightarrow> None)"

subsection \<open>Acquisition, the record and the entry point\<close>

text \<open>
  The network and the parser are parameters.  \<open>requests.get\<close> either raises one of the
  exceptions of \<open>requests\<close> or returns a response; each exception carries its message.
  \<open>Timeout\<close> stands for the class and its subclasses (a \<open>ConnectTimeout\<close> is caught by
  the first handler), \<open>ConnectionError\<close> for the remaining connection errors,
  \<open>RequestException\<close> for every other exception of the library.
\<close>

datatype request_exception =
    Timeout string
  | ConnectionError string
  | HTTPError string
  | RequestException string

record response =
  status_code :: nat
  reason :: string
  content :: string
  response_url :: string

record env =
  requests_get :: "string \<Rightarrow> request_exception + response"
  BeautifulSoup :: "string \<Rightarrow> soup"

fun str_nat :: "nat \<Rightarrow> string" where
  "str_nat n =
     (if n < 10 then [char_of (48 + n)] else str_nat (n div 10) @ [char_of (48 + n mod 10)])"

declare str_nat.simps [simp del]

definition raise_for_status :: "response \<Rightarrow> request_exception + unit" where
  \<comment> \<open>\<open>response.raise_for_status()\<close> of \<open>requests\<close>: the statuses 400 to 599 raise, and
      the message names \<open>response.url\<close>\<close>
  "raise_for_status r =
     (if 400 \<le> status_code r \<and> status_code r < 500
      then Inl (HTTPError (str_nat (status_code r) @ '' Client Error: '' @ reason r
                           @ '' for url: '' @ response_url r))
      else if 500 \<le> status_code r \<and> status_code r < 600
      then Inl (HTTPError (str_nat (status_code r) @ '' Server Error: '' @ reason r
                           @ '' for url: '' @ response_url r))
      else Inr ())"

datatype pyval = PyNone | PyStr string | PyBool bool | PyList "string list"

type_synonym product = "(string \<times> pyval) list"

datatype event = Stdout string | StdoutJson product | Stderr string

definition handle_request_exception :: "request_exception \<Rightarrow> event list" where
  \<comment> \<open>the four \<open>except\<close> clauses of \<open>fetch_page\<close>, in their order\<close>
  "handle_request_exception e =
     (case e of
        Timeout m \<Rightarrow> [Stderr ''error: request timed out'']
      | ConnectionError m \<Rightarrow> [Stderr ''error: failed to connect to the server'']
      | HTTPError m \<Rightarrow> [Stderr (''error: http error occurred - '' @ m)]
      | RequestException m \<Rightarrow> [Stderr (''error: request failed - '' @ m)])"

definition fetch_page :: "env \<Rightarrow> string \<Rightarrow> event list \<times> soup option" where
  "fetch_page env url =
     (case requests_get env url of
        Inl e \<Rightarrow> (handle_request_exception e, None)
      | Inr response \<Rightarrow>
          (case raise_for_status response of
             Inl e \<Rightarrow> (handle_request_exception e, None)
           | Inr _ \<Rightarrow> ([], Some (BeautifulSoup env (content response)))))"

definition opt_val :: "string option \<Rightarrow> pyval" where
  "opt_val v = (case v of Some s \<Rightarrow> PyStr s | None \<Rightarrow> PyNone)"

definition product_data :: "soup \<Rightarrow> string \<Rightarrow> product" where
  \<comment> \<open>the dictionary built by \<open>scrape_amazon_product\<close>\<close>
  "product_data soup url =
     [(''title'', opt_val (extract_title soup)),
      (''price'', opt_val (extract_price soup)),
      (''avg_rating'', opt_val (extract_avg_rating soup)),
      (''review_count'', opt_val (extract_review_count soup)),
      (''availability'', opt_val (extract_availability soup)),
      (''out_of_stock'', PyBool (extract_out_of_stock soup)),
      (''description'', opt_val (extract_description soup)),
      (''features'', PyList (extract_features soup)),
      (''images'', PyList (extract_images soup)),
      (''category'', opt_val (extract_category soup)),
      (''ships_from'', opt_val (extract_ships_from soup)),
      (''sold_by'', opt_val (extract_sold_by soup)),
      (''url'', PyStr url)]"

definition scrape_amazon_product :: "env \<Rightarrow> string \<Rightarrow> event list \<times> product option" where
  \<comment> \<open>a BeautifulSoup object is truthy whatever it holds, so \<open>not soup\<close> is \<open>soup is None\<close>\<close>
  "scrape_amazon_product env url =
     (case fetch_page env url of
        (out, None) \<Rightarrow> (out, None)
      | (out, Some soup) \<Rightarrow> (out, Some (product_data soup url)))"

definition TARGET_URL :: string where
  "TARGET_URL =
     ''https://www.amazon.com/Logitech-Master-Bluetooth-Wireless-Receiver/dp/B0FB21526X''"

definition finish :: "event list \<Rightarrow> product option \<Rightarrow> event list \<times> nat" where
  \<comment> \<open>the end of \<open>main\<close>, the same in both scripts: print the record, or report the failure
      and \<open>sys.exit(1)\<close>; the second component is the exit status; an empty dictionary is
      falsy\<close>
  "finish out data =
     (case data of
        Some d \<Rightarrow>
          (if d \<noteq> [] then (out @ [StdoutJson d], 0)
           else (out @ [Stderr ''failed to scrape product data''], 1))
      | None \<Rightarrow> (out @ [Stderr ''failed to scrape product data''], 1))"

definition main :: "env \<Rightarrow> event list \<times> nat" where
  "main env =
     (case scrape_amazon_product env TARGET_URL of
        (out, data) \<Rightarrow>
          finish ([Stdout (''scraping: '' @ TARGET_URL @ [CHR 0x0A])] @ out) data)"

section \<open>The Playwright script\<close>

subsection \<open>The page handle\<close>

text \<open>
  The script has the same names as the first one; its functions carry the suffix \<open>_pw\<close>.
  Every call on a page or on an element handle goes to the browser and may raise, so each
  returns either an exception or its value.  A page is taken to answer the same query the
  same way during one extraction.
\<close>

datatype pw_exception = PlaywrightTimeout string | PlaywrightError string

record element_handle =
  inner_text :: "pw_exception + string"
  get_attribute :: "string \<Rightarrow> pw_exception + string option"

record page =
  query_selector :: "string \<Rightarrow> pw_exception + element_handle option"
  query_selector_all :: "string \<Rightarrow> pw_exception + element_handle list"

subsection \<open>The extractors\<close>

definition except_pass :: "pw_exception + 'a option \<Rightarrow> pw_exception + 'a option" where
  \<comment> \<open>\<open>try: body\<close> \<open>except Exception: pass\<close> followed by \<open>return None\<close>.  The body's value is
      \<open>Some v\<close> when it executed \<open>return v\<close> and \<open>None\<close> when it ran to its end\<close>
  "except_pass body = (case body of Inl e \<Rightarrow> Inr None | Inr r \<Rightarrow> Inr r)"

definition extract_title_pw :: "page \<Rightarrow> pw_exception + string option" where
  "extract_title_pw page =
     except_pass
       (case query_selector page (selector ''title'') of
          Inl e \<Rightarrow> Inl e
        | Inr None \<Rightarrow> Inr None
        | Inr (Some element) \<Rightarrow>
            (case inner_text element of
               Inl e \<Rightarrow> Inl e
             | Inr t \<Rightarrow> Inr (Some (strip t))))"

definition extract_price_pw :: "page \<Rightarrow> pw_exception + string option" where
  "extract_price_pw page =
     except_pass
       (case query_selector page (selector ''price'') of
          Inl e \<Rightarrow> Inl e
        | Inr None \<Rightarrow> Inr None
        | Inr (Some element) \<Rightarrow>
            (case inner_text element of
               Inl e \<Rightarrow> Inl e
             | Inr t \<Rightarrow> Inr (Some (strip t))))"

definition extract_avg_rating_pw :: "page \<Rightarrow> pw_exception + string option" where
  "extract_avg_rating_pw page =
     except_pass
       (case query_selector page (selector ''avg_rating'') of
          Inl e \<Rightarrow> Inl e
        | Inr None \<Rightarrow> Inr None
        | Inr (Some element) \<Rightarrow>
            (case inner_text element of
               Inl e \<Rightarrow> Inl e
             | Inr t \<Rightarrow> Inr (rating_of_text (strip t))))"

definition extract_review_count_pw :: "page \<Rightarrow> pw_exception + string option" where
  "extract_review_count_pw page =
     except_pass
       (case query_selector page (selector ''review_count'') of
          Inl e \<Rightarrow> Inl e
        | Inr None \<Rightarrow> Inr None
        | Inr (Some element) \<Rightarrow>
            (case inner_text element of
               Inl e \<Rightarrow> Inl e
             | Inr t \<Rightarrow> Inr (review_count_of_text (strip t))))"

definition extract_availability_pw :: "page \<Rightarrow> pw_exception + string option" where
  "extract_availability_pw page =
     except_pass
       (case query_selector page (selector ''availability'') of
          Inl e \<Rightarrow> Inl e
        | Inr None \<Rightarrow> Inr None
        | Inr (Some element) \<Rightarrow>
            (case inner_text element of
               Inl e \<Rightarrow> Inl e
             | Inr t \<Rightarrow> Inr (Some (strip t))))"

definition extract_out_of_stock_pw :: "page \<Rightarrow> pw_exception + bool" where
  \<comment> \<open>no \<open>try\<close> here: an exception of \<open>extract_availability\<close> would pass through\<close>
  "extract_out_of_stock_pw page =
     (case extract_availability_pw page of
        Inl e \<Rightarrow> Inl e
      | Inr availability \<Rightarrow> Inr (out_of_stock_of availability))"

definition extract_description_pw :: "page \<Rightarrow> pw_exception + string option" where
  "extract_description_pw page =
     except_pass
       (case query_selector page (selector ''description'') of
          Inl e \<Rightarrow> Inl e
        | Inr None \<Rightarrow> Inr None
        | Inr (Some element) \<Rightarrow>
            (case inner_text element of
               Inl e \<Rightarrow> Inl e
             | Inr t \<Rightarrow> Inr (Some (strip t))))"

primrec features_loop_pw ::
  "element_handle list \<Rightarrow> string list \<Rightarrow> string list \<times> pw_exception option" where
  \<comment> \<open>the list \<open>features\<close> as the loop leaves it, and the exception that ended the loop\<close>
  "features_loop_pw [] features = (features, None)"
| "features_loop_pw (element # elements) features =
     (case inner_text element of
        Inl e \<Rightarrow> (features, Some e)
      | Inr t \<Rightarrow>
          (let text = strip t
           in features_loop_pw elements
                (if keep_feature text then features @ [text] else features)))"

definition extract_features_pw :: "page \<Rightarrow> pw_exception + string list" where
  \<comment> \<open>\<open>features\<close> is created before the \<open>try\<close> and returned after it, whatever happened\<close>
  "extract_features_pw page =
     (case query_selector_all page (selector ''features'') of
        Inl e \<Rightarrow> Inr []
      | Inr elements \<Rightarrow> Inr (fst (features_loop_pw elements [])))"

definition main_img_url ::
  "element_handle \<Rightarrow> pw_exception + string option" where
  \<comment> \<open>\<open>main_img.get_attribute("data-old-hires") or main_img.get_attribute("src")\<close>: the
      second call happens only when the first value is falsy\<close>
  "main_img_url main_img =
     (case get_attribute main_img ''data-old-hires'' of
        Inl e \<Rightarrow> Inl e
      | Inr a \<Rightarrow>
          (case a of
             Some x \<Rightarrow> (if x \<noteq> [] then Inr a else get_attribute main_img ''src'')
           | None \<Rightarrow> get_attribute main_img ''src''))"

primrec thumbs_loop_pw ::
  "element_handle list \<Rightarrow> string list \<Rightarrow> string list \<times> pw_exception option" where
  "thumbs_loop_pw [] images = (images, None)"
| "thumbs_loop_pw (thumb # thumbs) images =
     (case get_attribute thumb ''src'' of
        Inl e \<Rightarrow> (images, Some e)
      | Inr img_url \<Rightarrow> thumbs_loop_pw thumbs (append_thumb img_url images))"

definition extract_images_pw :: "page \<Rightarrow> pw_exception + string list" where
  \<comment> \<open>\<open>images\<close> is created before the \<open>try\<close> and returned after it, whatever happened\<close>
  "extract_images_pw page =
     (case query_selector page (selector ''images'') of
        Inl e \<Rightarrow> Inr []
      | Inr main_img \<Rightarrow>
          (case (case main_img of
                   Some img \<Rightarrow>
                     (case main_img_url img of
                        Inl e \<Rightarrow> Inl e
                      | Inr img_url \<Rightarrow> Inr (append_if_http img_url []))
                 | None \<Rightarrow> Inr []) of
             Inl e \<Rightarrow> Inr []
           | Inr images \<Rightarrow>
               (case query_selector_all page THUMBNAIL_SELECTOR of
                  Inl e \<Rightarrow> Inr images
                | Inr thumbnail_elements \<Rightarrow>
                    Inr (fst (thumbs_loop_pw thumbnail_elements images)))))"

primrec inner_texts :: "element_handle list \<Rightarrow> pw_exception + string list" where
  \<comment> \<open>\<open>[el.inner_text().strip() for el in elements]\<close>\<close>
  "inner_texts [] = Inr []"
| "inner_texts (el # els) =
     (case inner_text el of
        Inl e \<Rightarrow> Inl e
      | Inr t \<Rightarrow> (case inner_texts els of Inl e \<Rightarrow> Inl e | Inr ts \<Rightarrow> Inr (strip t # ts)))"

definition extract_category_pw :: "page \<Rightarrow> pw_exception + string option" where
  "extract_category_pw page =
     except_pass
       (case query_selector_all page (selector ''category'') of
          Inl e \<Rightarrow> Inl e
        | Inr elements \<Rightarrow>
            (if elements \<noteq> []
             then (case inner_texts elements of
                     Inl e \<Rightarrow> Inl e
                   | Inr categories \<Rightarrow> Inr (Some (str_join '' > '' categories)))
             else Inr None))"

definition extract_ships_from_pw :: "page \<Rightarrow> pw_exception + string option" where
  "extract_ships_from_pw page =
     except_pass
       (case query_selector page (selector ''ships_from'') of
          Inl e \<Rightarrow> Inl e
        | Inr None \<Rightarrow> Inr None
        | Inr (Some element) \<Rightarrow>
            (case inner_text element of
               Inl e \<Rightarrow> Inl e
             | Inr t \<Rightarrow> Inr (Some (strip t))))"

definition extract_sold_by_pw :: "page \<Rightarrow> pw_exception + string option" where
  "extract_sold_by_pw page =
     except_pass
       (case query_selector page (selector ''sold_by'') of
          Inl e \<Rightarrow> Inl e
        | Inr None \<Rightarrow> Inr None
        | Inr (Some element) \<Rightarrow>
            (case inner_text element of
               Inl e \<Rightarrow> Inl e
             | Inr t \<Rightarrow> Inr (Some (strip t))))"

subsection \<open>Acquisition, the record and the entry point\<close>

definition bind_exn :: "pw_exception + 'a \<Rightarrow> ('a \<Rightarrow> pw_exception + 'b) \<Rightarrow> pw_exception + 'b" where
  \<comment> \<open>evaluate, and go on unless an exception was raised\<close>
  "bind_exn m f = (case m of Inl e \<Rightarrow> Inl e | Inr x \<Rightarrow> f x)"

definition product_data_pw :: "page \<Rightarrow> string \<Rightarrow> pw_exception + product" where
  \<comment> \<open>the dictionary built by \<open>scrape_amazon_product\<close>, its values evaluated in order\<close>
  "product_data_pw page url =
     bind_exn (extract_title_pw page) (\<lambda>title.
     bind_exn (extract_price_pw page) (\<lambda>price.
     bind_exn (extract_avg_rating_pw page) (\<lambda>avg_rating.
     bind_exn (extract_review_count_pw page) (\<lambda>review_count.
     bind_exn (extract_availability_pw page) (\<lambda>availability.
     bind_exn (extract_out_of_stock_pw page) (\<lambda>out_of_stock.
     bind_exn (extract_description_pw page) (\<lambda>description.
     bind_exn (extract_features_pw page) (\<lambda>features.
     bind_exn (extract_images_pw page) (\<lambda>images.
     bind_exn (extract_category_pw page) (\<lambda>category.
     bind_exn (extract_ships_from_pw page) (\<lambda>ships_from.
     bind_exn (extract_sold_by_pw page) (\<lambda>sold_by.
     Inr [(''title'', opt_val title),
          (''price'', opt_val price),
          (''avg_rating'', opt_val avg_rating),
          (''review_count'', opt_val review_count),
          (''availability'', opt_val availability),
          (''out_of_stock'', PyBool out_of_stock),
          (''description'', opt_val description),
          (''features'', PyList features),
          (''images'', PyList images),
          (''category'', opt_val category),
          (''ships_from'', opt_val ships_from),
          (''sold_by'', opt_val sold_by),
          (''url'', PyStr url)]))))))))))))"

text \<open>
  The browser is a parameter: \<open>new_page\<close> stands for the launch, the new context and the
  new page, \<open>load\<close> for \<open>goto\<close>, \<open>wait_for_selector("#productTitle")\<close> and the settle
  delay, \<open>close_browser\<close> for \<open>browser.close()\<close>; any of them may raise.
\<close>

record browser =
  new_page :: "pw_exception + unit"
  load :: "string \<Rightarrow> pw_exception + page"
  close_browser :: "pw_exception + unit"

definition handle_pw_exception :: "pw_exception \<Rightarrow> event list" where
  \<comment> \<open>the two \<open>except\<close> clauses of \<open>scrape_amazon_product\<close>\<close>
  "handle_pw_exception e =
     (case e of
        PlaywrightTimeout m \<Rightarrow> [Stderr ''error: page load timed out'']
      | PlaywrightError m \<Rightarrow> [Stderr (''error: failed to scrape page - '' @ m)])"

definition scrape_amazon_product_pw ::
  "browser \<Rightarrow> string \<Rightarrow> event list \<times> product option" where
  "scrape_amazon_product_pw b url =
     (case new_page b of
        Inl e \<Rightarrow> (handle_pw_exception e, None)
      | Inr _ \<Rightarrow>
          (let out = [Stdout (''navigating to: '' @ url)]
           in case load b url of
                Inl e \<Rightarrow> (out @ handle_pw_exception e, None)
              | Inr page \<Rightarrow>
                  (case product_data_pw page url of
                     Inl e \<Rightarrow> (out @ handle_pw_exception e, None)
                   | Inr data \<Rightarrow>
                       (case close_browser b of
                          Inl e \<Rightarrow> (out @ handle_pw_exception e, None)
                        | Inr _ \<Rightarrow> (out, Some data)))))"

definition main_pw :: "browser \<Rightarrow> event list \<times> nat" where
  "main_pw b =
     (case scrape_amazon_product_pw b TARGET_URL of
        (out, data) \<Rightarrow>
          finish ([Stdout (''scraping: '' @ TARGET_URL @ [CHR 0x0A])] @ out) data)"

section \<open>Sample documents\<close>

text \<open>Concrete documents and pages on which the theorems below are exercised.\<close>

definition doc_of :: "(string \<times> tag list) list \<Rightarrow> soup" where
  \<comment> \<open>the document that answers the listed selectors as listed and nothing else\<close>
  "doc_of answers = (\<lambda>s. case map_of answers s of Some ts \<Rightarrow> ts | None \<Rightarrow> [])"

definition text_tag :: "string \<Rightarrow> tag" where
  "text_tag t = \<lparr>strings = [t], attrs = Map.empty\<rparr>"

definition img_tag :: "(string \<times> string) list \<Rightarrow> tag" where
  "img_tag as = \<lparr>strings = [], attrs = map_of as\<rparr>"

definition text_handle :: "string \<Rightarrow> element_handle" where
  "text_handle t = \<lparr>inner_text = Inr t, get_attribute = (\<lambda>_. Inr None)\<rparr>"

definition img_handle :: "(string \<times> string) list \<Rightarrow> element_handle" where
  "img_handle as = \<lparr>inner_text = Inr [], get_attribute = (\<lambda>n. Inr (map_of as n))\<rparr>"


definition page_of :: "(string \<times> element_handle list) list \<Rightarrow> page" where
  \<comment> \<open>the page that answers the listed selectors as listed and nothing else, never raising\<close>
  "page_of answers =
     \<lparr>query_selector = (\<lambda>s. case map_of answers s of
                                Some (h # _) \<Rightarrow> Inr (Some h) | _ \<Rightarrow> Inr None),
      query_selector_all = (\<lambda>s. case map_of answers s of
                                Some hs \<Rightarrow> Inr hs | None \<Rightarrow> Inr [])\<rparr>"

definition reviews_doc :: "string \<Rightarrow> soup" where
  "reviews_doc t = doc_of [(''#acrCustomerReviewText'', [text_tag t])]"

definition reviews_page :: "string \<Rightarrow> page" where
  "reviews_page t = page_of [(''#acrCustomerReviewText'', [text_handle t])]"

definition rating_doc :: "string \<Rightarrow> soup" where
  "rating_doc t = doc_of [(''span.a-icon-alt'', [text_tag t])]"

definition rating_page :: "string \<Rightarrow> page" where
  "rating_page t = page_of [(''span.a-icon-alt'', [text_handle t])]"

definition availability_doc :: "string \<Rightarrow> soup" where
  "availability_doc t = doc_of [(''#availability span'', [text_tag t])]"

definition availability_page :: "string \<Rightarrow> page" where
  "availability_page t = page_of [(''#availability span'', [text_handle t])]"

definition empty_doc :: soup where
  "empty_doc = doc_of []"

definition empty_page :: page where
  "empty_page = page_of []"

definition refusing_env :: env where
  \<comment> \<open>the connection is refused\<close>
  "refusing_env =
     \<lparr>requests_get = (\<lambda>_. Inl (ConnectionError ''connection refused'')),
      BeautifulSoup = (\<lambda>_. empty_doc)\<rparr>"

definition not_found_env :: env where
  \<comment> \<open>the server answers 404\<close>
  "not_found_env =
     \<lparr>requests_get = (\<lambda>_. Inr \<lparr>status_code = 404, reason = ''Not Found'', content = [],
          response_url = TARGET_URL\<rparr>),
      BeautifulSoup = (\<lambda>_. empty_doc)\<rparr>"

definition blank_env :: env where
  \<comment> \<open>the server answers 200 with a page on which nothing matches\<close>
  "blank_env =
     \<lparr>requests_get = (\<lambda>_. Inr \<lparr>status_code = 200, reason = ''OK'', content = [],
          response_url = TARGET_URL\<rparr>),
      BeautifulSoup = (\<lambda>_. empty_doc)\<rparr>"

definition timeout_browser :: browser where
  \<comment> \<open>the page never finishes loading\<close>
  "timeout_browser =
     \<lparr>new_page = Inr (),
      load = (\<lambda>_. Inl (PlaywrightTimeout ''Timeout 60000ms exceeded'')),
      close_browser = Inr ()\<rparr>"

definition features_doc :: "string list \<Rightarrow> soup" where
  "features_doc ts = doc_of [(''#feature-bullets ul li span.a-list-item'', map text_tag ts)]"

definition features_page :: "string list \<Rightarrow> page" where
  "features_page ts =
     page_of [(''#feature-bullets ul li span.a-list-item'', map text_handle ts)]"

definition sample_features :: "string list" where
  "sample_features = [''  Quiet clicks  '', ''USB-C'', '' '', ''8K DPI sensor'', ''Quiet clicks'']"


definition rating_phrase :: "string \<Rightarrow> bool" where
  \<comment> \<open>a phrase \<open><number> out of\<close>: digits, possibly a dot, possibly more digits, possibly
      white space, then \<open>out of\<close>; what the pattern of \<open>rating_of_text\<close> is meant to match\<close>
  "rating_phrase t =
     (\<exists>D1 dot D2 S. t = D1 @ dot @ D2 @ S @ ''out of'' \<and> D1 \<noteq> []
        \<and> (\<forall>c \<in> set D1. is_digit c) \<and> (dot = [] \<or> dot = ''.'')
        \<and> (\<forall>c \<in> set D2. is_digit c) \<and> (\<forall>c \<in> set S. is_space c))"

definition is_absolute_http :: "string \<Rightarrow> bool" where
  \<comment> \<open>an absolute HTTP(S) address\<close>
  "is_absolute_http u = (startswith u ''http://'' \<or> startswith u ''https://'')"

definition thumb_url :: string where
  \<comment> \<open>a thumbnail address with a size token\<close>
  "thumb_url = ''https://m.media-amazon.com/images/I/41abc._SS40_.jpg''"


definition large_urls :: "string option list \<Rightarrow> string list" where
  \<comment> \<open>from the \<open>src\<close> values of the thumbnails, in document order: the rewritten
      addresses of those that are http addresses\<close>
  "large_urls srcs =
     List.map_filter
       (\<lambda>src. case src of
                 Some u \<Rightarrow> if u \<noteq> [] \<and> startswith u ''http'' then Some (enlarge u) else None
               | None \<Rightarrow> None)
       srcs"

definition images_doc :: soup where
  \<comment> \<open>a main image with both attributes and five thumbnails: the first is the main image at
      thumbnail size, the second a further image, the third repeats the second, the fourth
      has a relative address, the fifth no \<open>src\<close>\<close>
  "images_doc = doc_of
     [(''#imgTagWrapperId img'',
         [img_tag [(''data-old-hires'', ''https://m.media-amazon.com/images/I/71main._AC_SL1500_.jpg''),
                   (''src'', ''https://m.media-amazon.com/images/I/71main._AC_SX300_.jpg'')]]),
      (''#altImages img.a-dynamic-image'',
         [img_tag [(''src'', ''https://m.media-amazon.com/images/I/71main._SS40_.jpg'')],
          img_tag [(''src'', ''https://m.media-amazon.com/images/I/41abc._SS40_.jpg'')],
          img_tag [(''src'', ''https://m.media-amazon.com/images/I/41abc._SS40_.jpg'')],
          img_tag [(''src'', ''/images/I/51rel._SS40_.jpg'')],
          img_tag []])]"

definition images_page :: page where
  \<comment> \<open>the same content behind a page handle\<close>
  "images_page = page_of
     [(''#imgTagWrapperId img'',
         [img_handle [(''data-old-hires'', ''https://m.media-amazon.com/images/I/71main._AC_SL1500_.jpg''),
                      (''src'', ''https://m.media-amazon.com/images/I/71main._AC_SX300_.jpg'')]]),
      (''#altImages img.a-dynamic-image'',
         [img_handle [(''src'', ''https://m.media-amazon.com/images/I/71main._SS40_.jpg'')],
          img_handle [(''src'', ''https://m.media-amazon.com/images/I/41abc._SS40_.jpg'')],
          img_handle [(''src'', ''https://m.media-amazon.com/images/I/41abc._SS40_.jpg'')],
          img_handle [(''src'', ''/images/I/51rel._SS40_.jpg'')],
          img_handle []])]"

section \<open>Failure of one field\<close>









definition relative_doc :: soup where
  \<comment> \<open>a main image whose address is relative and begins with the letters \<open>http\<close>\<close>
  "relative_doc = doc_of [(''#imgTagWrapperId img'', [img_tag [(''src'', ''httpdocs/main.jpg'')]])]"

definition relative_page :: page where
  "relative_page =
     page_of [(''#imgTagWrapperId img'', [img_handle [(''src'', ''httpdocs/main.jpg'')]])]"

definition sample_srcs :: "string option list" where
  \<comment> \<open>the \<open>src\<close> values of the thumbnails of \<open>images_page\<close>\<close>
  "sample_srcs =
     [Some ''https://m.media-amazon.com/images/I/71main._SS40_.jpg'',
      Some ''https://m.media-amazon.com/images/I/41abc._SS40_.jpg'',
      Some ''https://m.media-amazon.com/images/I/41abc._SS40_.jpg'',
      Some ''/images/I/51rel._SS40_.jpg'',
      None]"





section \<open>Properties of the matcher\<close>

lemma backtrack_Some:
  "backtrack k lo n = Some r \<Longrightarrow> \<exists>j. lo \<le> j \<and> j \<le> n \<and> k j = Some r"
proof (induction n)
  case 0
  then show ?case by (auto split: if_splits)
next
  case (Suc n)
  show ?case
  proof (cases "k (Suc n)")
    case None
    with Suc.prems have "backtrack k lo n = Some r" by (auto split: if_splits)
    from Suc.IH [OF this] show ?thesis by (meson le_Suc_eq)
  next
    case (Some a)
    with Suc.prems have "a = r" "lo \<le> Suc n" by (auto split: if_splits)
    with Some show ?thesis by blast
  qed
qed

lemma backtrack_None:
  "backtrack k lo n = None \<longleftrightarrow> (\<forall>j. lo \<le> j \<and> j \<le> n \<longrightarrow> k j = None)"
proof (induction n)
  case 0
  then show ?case by auto
next
  case (Suc n)
  show ?case
  proof (cases "Suc n < lo")
    case True
    then show ?thesis by auto
  next
    case False
    show ?thesis
    proof (cases "k (Suc n)")
      case None
      have "(\<forall>j. lo \<le> j \<and> j \<le> Suc n \<longrightarrow> k j = None) \<longleftrightarrow>
            (\<forall>j. lo \<le> j \<and> j \<le> n \<longrightarrow> k j = None)"
        using None by (metis le_Suc_eq)
      with False None Suc.IH show ?thesis by simp
    next
      case (Some a)
      with False show ?thesis by (auto intro: exI [of _ "Suc n"])
    qed
  qed
qed

lemma backtrack_first:
  "lo \<le> n \<Longrightarrow> k n = Some r \<Longrightarrow> backtrack k lo n = Some r"
  by (cases n) auto

lemma take_takeWhile_all:
  "k \<le> length (takeWhile p s) \<Longrightarrow> \<forall>c \<in> set (take k s). p c"
proof -
  assume "k \<le> length (takeWhile p s)"
  then have "take k s = take k (takeWhile p s)"
    by (metis takeWhile_eq_take min.absorb1 take_take)
  then show ?thesis
    by (metis in_set_takeD set_takeWhileD)
qed

lemma match_here_sound:
  "match_here as s = Some ps \<Longrightarrow> list_all2 piece_ok as ps \<and> (\<exists>rest. s = concat ps @ rest)"
proof (induction as arbitrary: s ps)
  case Nil
  then show ?case by simp
next
  case (Cons a as)
  define n where "n = length (takeWhile (fst a) s)"
  define lo where "lo = (case snd a of One \<Rightarrow> 1 | Opt \<Rightarrow> 0 | Star \<Rightarrow> 0 | Plus \<Rightarrow> (1::nat))"
  define hi where "hi = (case snd a of One \<Rightarrow> min 1 n | Opt \<Rightarrow> min 1 n | Star \<Rightarrow> n | Plus \<Rightarrow> n)"
  from Cons.prems have "backtrack (\<lambda>k. map_option ((#) (take k s)) (match_here as (drop k s))) lo hi = Some ps"
    unfolding n_def lo_def hi_def by (simp add: Let_def)
  from backtrack_Some [OF this] obtain j qs where j: "lo \<le> j" "j \<le> hi"
    and qs: "match_here as (drop j s) = Some qs" and ps: "ps = take j s # qs"
    by auto
  have hin: "hi \<le> n" by (cases "snd a") (auto simp: hi_def)
  with j have jn: "j \<le> length (takeWhile (fst a) s)" by (simp add: n_def)
  then have all: "\<forall>c \<in> set (take j s). fst a c" by (rule take_takeWhile_all)
  have "length (takeWhile (fst a) s) \<le> length s" by (rule length_takeWhile_le)
  with jn have len: "length (take j s) = j" by simp
  have ok: "piece_ok a (take j s)"
    using all j len by (cases "snd a") (auto simp: piece_ok_def lo_def hi_def)
  from Cons.IH [OF qs] obtain rest where r: "list_all2 piece_ok as qs" "drop j s = concat qs @ rest"
    by blast
  have "take j s @ drop j s = s" by simp
  with r(2) have "s = concat ps @ rest" unfolding ps by (metis append.assoc concat.simps(2))
  then have ex: "\<exists>rest. s = concat ps @ rest" ..
  have "list_all2 piece_ok (a # as) ps" unfolding ps using ok r(1) by simp
  then show ?case using ex by (rule conjI)
qed

lemma re_search_sound:
  "re_search as s = Some (pre, ps) \<Longrightarrow>
     \<exists>post. s = pre @ concat ps @ post \<and> match_here as (concat ps @ post) = Some ps"
proof (induction s arbitrary: pre ps)
  case Nil
  then have m: "match_here as [] = Some ps" and p: "pre = []" by auto
  from match_here_sound [OF m] have c: "concat ps = []" by auto
  have "[] = pre @ concat ps @ [] \<and> match_here as (concat ps @ []) = Some ps"
    unfolding c using m p by simp
  then show ?case by blast
next
  case (Cons c cs)
  show ?case
  proof (cases "match_here as (c # cs)")
    case None
    with Cons.prems obtain pre' where r: "re_search as cs = Some (pre', ps)" and p: "pre = c # pre'"
      by auto
    from Cons.IH [OF r] p show ?thesis by auto
  next
    case (Some qs)
    with Cons.prems have p: "pre = []" "qs = ps" by auto
    from match_here_sound [OF Some] obtain rest where "c # cs = concat qs @ rest" by blast
    with Some p show ?thesis by (metis append_Nil)
  qed
qed


lemma re_search_None:
  "re_search as s = None \<longleftrightarrow> (\<forall>i \<le> length s. match_here as (drop i s) = None)"
proof (induction s)
  case Nil
  then show ?case by simp
next
  case (Cons c cs)
  have split: "(\<forall>i \<le> length (c # cs). match_here as (drop i (c # cs)) = None) \<longleftrightarrow>
      match_here as (c # cs) = None \<and> (\<forall>i \<le> length cs. match_here as (drop i cs) = None)"
    (is "?L \<longleftrightarrow> ?R")
  proof
    assume l: ?L
    have "match_here as (drop 0 (c # cs)) = None" using l by blast
    moreover have "\<forall>i \<le> length cs. match_here as (drop i cs) = None"
    proof (intro allI impI)
      fix i assume "i \<le> length cs"
      then have "Suc i \<le> length (c # cs)" by simp
      with l have "match_here as (drop (Suc i) (c # cs)) = None" by blast
      then show "match_here as (drop i cs) = None" by simp
    qed
    ultimately show ?R by simp
  next
    assume r: ?R
    show ?L
    proof (intro allI impI)
      fix i assume "i \<le> length (c # cs)"
      then show "match_here as (drop i (c # cs)) = None" using r by (cases i) auto
    qed
  qed
  show ?case unfolding split using Cons.IH by (auto split: option.splits)
qed



section \<open>Properties of the string operations and of the three patterns\<close>

lemma startswith_iff: "startswith s p \<longleftrightarrow> (\<exists>post. s = p @ post)"
proof
  assume "startswith s p"
  then have "take (length p) s = p" by (simp add: startswith_def)
  then have "s = p @ drop (length p) s" by (metis append_take_drop_id)
  then show "\<exists>post. s = p @ post" ..
next
  assume "\<exists>post. s = p @ post"
  then show "startswith s p" by (auto simp: startswith_def)
qed

lemma str_in_iff: "str_in sub s \<longleftrightarrow> (\<exists>pre post. s = pre @ sub @ post)"
proof (induction s)
  case Nil
  then show ?case by auto
next
  case (Cons c cs)
  show ?case
  proof
    assume "str_in sub (c # cs)"
    then consider "startswith (c # cs) sub" | "str_in sub cs" by auto
    then show "\<exists>pre post. c # cs = pre @ sub @ post"
    proof cases
      case 1
      then obtain post where "c # cs = sub @ post" by (auto simp: startswith_iff)
      then have "c # cs = [] @ sub @ post" by simp
      then show ?thesis by blast
    next
      case 2
      with Cons.IH obtain pre post where "cs = pre @ sub @ post" by blast
      then have "c # cs = (c # pre) @ sub @ post" by simp
      then show ?thesis by blast
    qed
  next
    assume "\<exists>pre post. c # cs = pre @ sub @ post"
    then obtain pre post where eq: "c # cs = pre @ sub @ post" by blast
    show "str_in sub (c # cs)"
    proof (cases pre)
      case Nil
      with eq have "startswith (c # cs) sub" unfolding startswith_iff by auto
      then show ?thesis by simp
    next
      case (Cons d ds)
      with eq have "cs = ds @ sub @ post" by simp
      with Cons.IH show ?thesis by auto
    qed
  qed
qed

lemma str_replace_char:
  "str_replace [x] [] s = filter (\<lambda>c. c \<noteq> x) s"
  by (induction s) (auto simp: startswith_def)

lemma match_here_plus:
  "match_here [(p, Plus)] s = (if takeWhile p s = [] then None else Some [takeWhile p s])"
proof (cases "takeWhile p s = []")
  case True
  then show ?thesis by simp
next
  case False
  then have n: "1 \<le> length (takeWhile p s)" by (cases "takeWhile p s") auto
  have t: "take (length (takeWhile p s)) s = takeWhile p s"
    by (metis takeWhile_eq_take)
  have "backtrack (\<lambda>k. map_option ((#) (take k s)) (match_here [] (drop k s))) 1
          (length (takeWhile p s)) = Some [takeWhile p s]"
    by (rule backtrack_first [OF n]) (simp add: t)
  with False show ?thesis by simp
qed

lemma re_search_plus:
  "re_search [(p, Plus)] s =
     (if \<forall>c \<in> set s. \<not> p c then None
      else Some (takeWhile (\<lambda>c. \<not> p c) s, [takeWhile p (dropWhile (\<lambda>c. \<not> p c) s)]))"
proof (induction s)
  case Nil
  then show ?case by simp
next
  case (Cons c cs)
  show ?case
  proof (cases "p c")
    case True
    then show ?thesis by (simp add: match_here_plus del: match_here.simps)
  next
    case False
    then show ?thesis using Cons.IH by (simp add: match_here_plus del: match_here.simps)
  qed
qed

lemma review_count_of_text_eq:
  "review_count_of_text text =
     (if \<forall>c \<in> set text. \<not> (is_digit c \<or> c = CHR '','') then None
      else Some (filter (\<lambda>c. c \<noteq> CHR '','')
             (takeWhile (\<lambda>c. is_digit c \<or> c = CHR '','')
                (dropWhile (\<lambda>c. \<not> (is_digit c \<or> c = CHR '','')) text))))"
  unfolding review_count_of_text_def REVIEW_PATTERN_def re_search_plus
  by (simp add: str_replace_char)

lemma piece_ok_lit: "piece_ok ((\<lambda>d. d = c), One) p \<longleftrightarrow> p = [c]"
  by (cases p) (auto simp: piece_ok_def)

lemma list_all2_lit: "list_all2 piece_ok (lit s) ps \<longleftrightarrow> ps = map (\<lambda>c. [c]) s"
proof (induction s arbitrary: ps)
  case Nil
  then show ?case by (simp add: lit_def)
next
  case (Cons c cs)
  then show ?case by (cases ps) (auto simp: lit_def piece_ok_lit)
qed

lemma concat_singletons: "concat (map (\<lambda>c. [c]) s) = s"
  by (induction s) auto

lemma rating_match_has_out_of:
  assumes "re_search RATING_PATTERN text = Some (pre, ps)"
  shows "\<exists>a b. text = a @ ''out of'' @ b"
proof -
  from re_search_sound [OF assms] obtain post where
    t: "text = pre @ concat ps @ post" and m: "match_here RATING_PATTERN (concat ps @ post) = Some ps"
    by blast
  from match_here_sound [OF m] have "list_all2 piece_ok RATING_PATTERN ps" by blast
  then obtain us vs where ps: "ps = us @ vs" and "list_all2 piece_ok (lit ''out of'') vs"
    unfolding RATING_PATTERN_def by (auto simp only: list_all2_append1)
  then have "vs = map (\<lambda>c. [c]) ''out of''" by (simp only: list_all2_lit)
  then have "concat vs = ''out of''" by (simp only: concat_singletons)
  with t ps have "text = (pre @ concat us) @ ''out of'' @ post" by simp
  then show ?thesis by blast
qed

lemma rating_of_text_None:
  "\<not> (\<exists>a b. text = a @ ''out of'' @ b) \<Longrightarrow> rating_of_text text = None"
  using rating_match_has_out_of [of "text"]
  by (cases "re_search RATING_PATTERN text") (auto simp: rating_of_text_def)

lemma selector_values:
  "selector ''title'' = ''#productTitle''"
  "selector ''price'' = ''span.a-price span.a-offscreen''"
  "selector ''avg_rating'' = ''span.a-icon-alt''"
  "selector ''review_count'' = ''#acrCustomerReviewText''"
  "selector ''availability'' = ''#availability span''"
  "selector ''description'' = ''#productDescription p''"
  "selector ''features'' = ''#feature-bullets ul li span.a-list-item''"
  "selector ''images'' = ''#imgTagWrapperId img''"
  "selector ''category'' = ''#wayfinding-breadcrumbs_feature_div ul li a''"
  "selector ''ships_from'' = ''#tabular-buybox-truncate-0 span.tabular-buybox-text''"
  "selector ''sold_by'' = ''#tabular-buybox-truncate-1 span.tabular-buybox-text''"
  by (simp_all add: selector_def SELECTORS_def)

section \<open>Review count\<close>

text \<open>
  C7: an element whose text is \<open>1,234 ratings\<close> gives the review count \<open>1234\<close>, and a text
  in which the pattern \<open>[\d,]+\<close> has no match (a text with neither a digit nor a comma)
  gives \<open>None\<close>, in both scripts.
\<close>

theorem review_count_extraction:
  "(select_one soup (selector ''review_count'') = Some element \<longrightarrow>
      get_text element = ''1,234 ratings'' \<longrightarrow> extract_review_count soup = Some ''1234'')
   \<and> (select_one soup (selector ''review_count'') = Some element \<longrightarrow>
      re_search REVIEW_PATTERN (get_text element) = None \<longrightarrow> extract_review_count soup = None)
   \<and> (query_selector page (selector ''review_count'') = Inr (Some handle) \<longrightarrow>
      inner_text handle = Inr t \<longrightarrow> strip t = ''1,234 ratings'' \<longrightarrow>
      extract_review_count_pw page = Inr (Some ''1234''))
   \<and> (query_selector page (selector ''review_count'') = Inr (Some handle) \<longrightarrow>
      inner_text handle = Inr t \<longrightarrow> re_search REVIEW_PATTERN (strip t) = None \<longrightarrow>
      extract_review_count_pw page = Inr None)
   \<and> (re_search REVIEW_PATTERN s = None \<longleftrightarrow> (\<forall>c \<in> set s. \<not> is_digit c \<and> c \<noteq> CHR '',''))"
proof -
  have ex: "review_count_of_text ''1,234 ratings'' = Some ''1234''"
    by (simp add: review_count_of_text_eq is_digit_def)
  have none: "\<And>x. re_search REVIEW_PATTERN x = None \<Longrightarrow> review_count_of_text x = None"
    by (simp add: review_count_of_text_def)
  have iff: "re_search REVIEW_PATTERN s = None \<longleftrightarrow> (\<forall>c \<in> set s. \<not> is_digit c \<and> c \<noteq> CHR '','')"
    unfolding REVIEW_PATTERN_def re_search_plus by auto
  show ?thesis
    using ex none iff
    by (auto simp: extract_review_count_def extract_review_count_pw_def except_pass_def)
qed

lemma sample_simps:
  "select_one (doc_of [(k, t # ts)]) k = Some t"
  "query_selector (page_of [(k, h # hs)]) k = Inr (Some h)"
  "query_selector_all (page_of [(k, hs')]) k = Inr hs'"
  "select (doc_of [(k, ts')]) k = ts'"
  "inner_text (text_handle x) = Inr x"
  by (simp_all add: select_one_def select_def doc_of_def page_of_def text_handle_def)

lemma get_text_text_tag: "get_text (text_tag x) = strip x"
  by (simp add: get_text_def text_tag_def)

theorem review_count_extraction_witness:
  "select_one (reviews_doc ''1,234 ratings'') (selector ''review_count'')
     = Some (text_tag ''1,234 ratings'')
   \<and> get_text (text_tag ''1,234 ratings'') = ''1,234 ratings''
   \<and> extract_review_count (reviews_doc ''1,234 ratings'') = Some ''1234''
   \<and> select_one (reviews_doc ''No reviews yet'') (selector ''review_count'')
     = Some (text_tag ''No reviews yet'')
   \<and> re_search REVIEW_PATTERN (get_text (text_tag ''No reviews yet'')) = None
   \<and> extract_review_count (reviews_doc ''No reviews yet'') = None
   \<and> query_selector (reviews_page '' 1,234 ratings '') (selector ''review_count'')
     = Inr (Some (text_handle '' 1,234 ratings ''))
   \<and> inner_text (text_handle '' 1,234 ratings '') = Inr '' 1,234 ratings ''
   \<and> strip '' 1,234 ratings '' = ''1,234 ratings''
   \<and> extract_review_count_pw (reviews_page '' 1,234 ratings '') = Inr (Some ''1234'')
   \<and> query_selector (reviews_page ''No reviews yet'') (selector ''review_count'')
     = Inr (Some (text_handle ''No reviews yet''))
   \<and> re_search REVIEW_PATTERN (strip ''No reviews yet'') = None
   \<and> extract_review_count_pw (reviews_page ''No reviews yet'') = Inr None"
proof -
  have s1: "strip '' 1,234 ratings '' = ''1,234 ratings''"
    and s2: "strip ''No reviews yet'' = ''No reviews yet''"
    and g1: "get_text (text_tag ''1,234 ratings'') = ''1,234 ratings''"
    and g2: "get_text (text_tag ''No reviews yet'') = ''No reviews yet''"
    by (simp_all add: get_text_text_tag strip_def is_space_def)
  have n: "re_search REVIEW_PATTERN ''No reviews yet'' = None"
    by (simp add: REVIEW_PATTERN_def re_search_plus is_digit_def)
  have d1: "select_one (reviews_doc ''1,234 ratings'') (selector ''review_count'')
      = Some (text_tag ''1,234 ratings'')"
    and d2: "select_one (reviews_doc ''No reviews yet'') (selector ''review_count'')
      = Some (text_tag ''No reviews yet'')"
    and p1: "query_selector (reviews_page '' 1,234 ratings '') (selector ''review_count'')
      = Inr (Some (text_handle '' 1,234 ratings ''))"
    and p2: "query_selector (reviews_page ''No reviews yet'') (selector ''review_count'')
      = Inr (Some (text_handle ''No reviews yet''))"
    by (simp_all add: reviews_doc_def reviews_page_def selector_values sample_simps)
  have i1: "inner_text (text_handle '' 1,234 ratings '') = Inr '' 1,234 ratings ''"
    and i2: "inner_text (text_handle ''No reviews yet'') = Inr ''No reviews yet''"
    by (simp_all add: sample_simps)
  note a = review_count_extraction
    [of "reviews_doc ''1,234 ratings''" "text_tag ''1,234 ratings''"
        "reviews_page '' 1,234 ratings ''" "text_handle '' 1,234 ratings ''"
        "'' 1,234 ratings ''" "[]"]
  note b = review_count_extraction
    [of "reviews_doc ''No reviews yet''" "text_tag ''No reviews yet''"
        "reviews_page ''No reviews yet''" "text_handle ''No reviews yet''"
        "''No reviews yet''" "[]"]
  have c1: "extract_review_count (reviews_doc ''1,234 ratings'') = Some ''1234''"
    using a d1 g1 by blast
  have c2: "extract_review_count_pw (reviews_page '' 1,234 ratings '') = Inr (Some ''1234'')"
    using a p1 i1 s1 by blast
  have c3: "extract_review_count (reviews_doc ''No reviews yet'') = None"
    using b d2 n unfolding g2 by blast
  have c4: "extract_review_count_pw (reviews_page ''No reviews yet'') = Inr None"
    using b p2 i2 n unfolding s2 by blast
  show ?thesis
    unfolding g2 s2 using s1 g1 n d1 d2 p1 p2 i1 c1 c2 c3 c4 by (intro conjI)
qed

section \<open>Average rating\<close>

lemma rating_of_sample: "rating_of_text ''4.5 out of 5 stars'' = Some ''4.5''"
  by (simp add: rating_of_text_def RATING_PATTERN_def lit_def is_digit_def is_space_def)

lemma match_here_complete:
  "list_all2 piece_ok as ps \<Longrightarrow> match_here as (concat ps @ rest) \<noteq> None"
proof (induction as arbitrary: ps rest)
  case Nil
  then show ?case by simp
next
  case (Cons a as)
  then obtain p qs where ps: "ps = p # qs" and ok: "piece_ok a p"
    and rest: "list_all2 piece_ok as qs"
    by (cases ps) auto
  let ?s = "concat ps @ rest"
  define n where "n = length (takeWhile (fst a) ?s)"
  define lo where "lo = (case snd a of One \<Rightarrow> 1 | Opt \<Rightarrow> 0 | Star \<Rightarrow> 0 | Plus \<Rightarrow> (1::nat))"
  define hi where "hi = (case snd a of One \<Rightarrow> min 1 n | Opt \<Rightarrow> min 1 n | Star \<Rightarrow> n | Plus \<Rightarrow> n)"
  have s: "?s = p @ (concat qs @ rest)" by (simp add: ps)
  from ok have allp: "\<forall>c \<in> set p. fst a c" by (simp add: piece_ok_def)
  then have "takeWhile (fst a) ?s = p @ takeWhile (fst a) (concat qs @ rest)"
    unfolding s by (simp add: takeWhile_append2)
  then have pn: "length p \<le> n" by (simp add: n_def)
  have lop: "lo \<le> length p"
    using ok by (cases "snd a"; cases p) (simp_all add: lo_def piece_ok_def)
  have php: "length p \<le> hi"
    using ok pn by (cases "snd a") (simp_all add: hi_def piece_ok_def)
  define K where "K = (\<lambda>k. map_option ((#) (take k ?s)) (match_here as (drop k ?s)))"
  have "match_here as (drop (length p) ?s) \<noteq> None"
    unfolding s using Cons.IH [OF rest, of rest] by simp
  then have kp: "K (length p) \<noteq> None" by (simp add: K_def)
  have "backtrack K lo hi \<noteq> None"
  proof
    assume "backtrack K lo hi = None"
    then have "\<forall>j. lo \<le> j \<and> j \<le> hi \<longrightarrow> K j = None" by (simp only: backtrack_None)
    then have "lo \<le> length p \<and> length p \<le> hi \<longrightarrow> K (length p) = None" by (rule spec)
    with lop php kp show False by simp
  qed
  then show ?case
    unfolding K_def match_here.simps Let_def n_def lo_def hi_def .
qed

lemma re_search_complete:
  assumes "s = pre @ concat ps @ post" and "list_all2 piece_ok as ps"
  shows "re_search as s \<noteq> None"
proof
  assume "re_search as s = None"
  then have "\<forall>i \<le> length s. match_here as (drop i s) = None"
    by (simp only: re_search_None)
  moreover have "length pre \<le> length s" by (simp add: assms(1))
  ultimately have "match_here as (drop (length pre) s) = None" by simp
  moreover have "drop (length pre) s = concat ps @ post" by (simp add: assms(1))
  ultimately have "match_here as (concat ps @ post) = None" by simp
  with match_here_complete [OF assms(2), of post] show False by simp
qed

lemma rating_pieces:
  "list_all2 piece_ok RATING_PATTERN ps \<longleftrightarrow>
     (\<exists>D1 dot D2 S. ps = [D1, dot, D2, S] @ map (\<lambda>c. [c]) ''out of'' \<and> D1 \<noteq> []
        \<and> (\<forall>c \<in> set D1. is_digit c) \<and> (dot = [] \<or> dot = ''.'')
        \<and> (\<forall>c \<in> set D2. is_digit c) \<and> (\<forall>c \<in> set S. is_space c))"
proof -
  have opt: "\<And>p. piece_ok ((\<lambda>c. c = CHR ''.''), Opt) p \<longleftrightarrow> (p = [] \<or> p = ''.'')"
  proof -
    fix p :: string
    show "piece_ok ((\<lambda>c. c = CHR ''.''), Opt) p \<longleftrightarrow> (p = [] \<or> p = ''.'')"
      by (cases p; cases "tl p") (auto simp: piece_ok_def)
  qed
  have four: "\<And>us. list_all2 piece_ok
        [(is_digit, Plus), ((\<lambda>c. c = CHR ''.''), Opt), (is_digit, Star), (is_space, Star)] us
      \<longleftrightarrow> (\<exists>D1 dot D2 S. us = [D1, dot, D2, S] \<and> D1 \<noteq> []
        \<and> (\<forall>c \<in> set D1. is_digit c) \<and> (dot = [] \<or> dot = ''.'')
        \<and> (\<forall>c \<in> set D2. is_digit c) \<and> (\<forall>c \<in> set S. is_space c))"
    by (auto simp: list_all2_Cons1 opt) (auto simp: piece_ok_def)
  show ?thesis
    unfolding RATING_PATTERN_def list_all2_append1 four list_all2_lit
    by (auto simp: lit_def)
qed

lemma rating_phrase_search:
  "(\<exists>a t b. x = a @ t @ b \<and> rating_phrase t) \<longleftrightarrow> re_search RATING_PATTERN x \<noteq> None"
proof
  assume "\<exists>a t b. x = a @ t @ b \<and> rating_phrase t"
  then obtain a t b where x: "x = a @ t @ b" and t: "rating_phrase t" by (elim exE conjE)
  from t obtain D1 dot D2 S where tt: "t = D1 @ dot @ D2 @ S @ ''out of''"
    and c: "D1 \<noteq> []" "\<forall>c \<in> set D1. is_digit c" "dot = [] \<or> dot = ''.''"
      "\<forall>c \<in> set D2. is_digit c" "\<forall>c \<in> set S. is_space c"
    unfolding rating_phrase_def by (elim exE conjE)
  define ps where "ps = [D1, dot, D2, S] @ map (\<lambda>c. [c]) ''out of''"
  have "list_all2 piece_ok RATING_PATTERN ps"
    unfolding rating_pieces using c ps_def by (intro exI conjI)
  moreover have "concat ps = t" unfolding ps_def tt by simp
  ultimately show "re_search RATING_PATTERN x \<noteq> None"
    using re_search_complete [of x a ps b RATING_PATTERN] x by simp
next
  assume "re_search RATING_PATTERN x \<noteq> None"
  then obtain r where "re_search RATING_PATTERN x = Some r"
    by (cases "re_search RATING_PATTERN x") simp_all
  then obtain pre ps where s: "re_search RATING_PATTERN x = Some (pre, ps)" by (cases r) simp
  from re_search_sound [OF s] obtain post where x: "x = pre @ concat ps @ post"
    and m: "match_here RATING_PATTERN (concat ps @ post) = Some ps" by (elim exE conjE)
  from match_here_sound [OF m] have "list_all2 piece_ok RATING_PATTERN ps" by (rule conjunct1)
  then obtain D1 dot D2 S where ps: "ps = [D1, dot, D2, S] @ map (\<lambda>c. [c]) ''out of''"
    and c: "D1 \<noteq> []" "\<forall>c \<in> set D1. is_digit c" "dot = [] \<or> dot = ''.''"
      "\<forall>c \<in> set D2. is_digit c" "\<forall>c \<in> set S. is_space c"
    unfolding rating_pieces by (elim exE conjE)
  have cp: "concat ps = D1 @ dot @ D2 @ S @ ''out of''" unfolding ps by simp
  with c have "rating_phrase (concat ps)" unfolding rating_phrase_def by (intro exI conjI)
  with x have "x = pre @ concat ps @ post \<and> rating_phrase (concat ps)" by (rule conjI)
  then show "\<exists>a t b. x = a @ t @ b \<and> rating_phrase t" by (intro exI)
qed

lemma rating_of_text_None_iff:
  "rating_of_text x = None \<longleftrightarrow> \<not> (\<exists>a t b. x = a @ t @ b \<and> rating_phrase t)"
proof -
  have "rating_of_text x = None \<longleftrightarrow> re_search RATING_PATTERN x = None"
    by (cases "re_search RATING_PATTERN x") (auto simp: rating_of_text_def)
  also have "\<dots> \<longleftrightarrow> \<not> (\<exists>a t b. x = a @ t @ b \<and> rating_phrase t)"
    using rating_phrase_search [of x] by (simp only: simp_thms)
  finally show ?thesis .
qed

lemma rating_of_text_Some:
  assumes "rating_of_text x = Some r"
  shows "\<exists>D1 dot D2. r = D1 @ dot @ D2 \<and> D1 \<noteq> [] \<and> (\<forall>c \<in> set D1. is_digit c)
     \<and> (dot = [] \<or> dot = ''.'') \<and> (\<forall>c \<in> set D2. is_digit c)"
proof -
  from assms obtain pre ps where s: "re_search RATING_PATTERN x = Some (pre, ps)"
    and r: "r = concat (take 3 ps)"
    by (cases "re_search RATING_PATTERN x") (auto simp: rating_of_text_def)
  from re_search_sound [OF s] obtain post where
    m: "match_here RATING_PATTERN (concat ps @ post) = Some ps" by (elim exE conjE)
  from match_here_sound [OF m] have "list_all2 piece_ok RATING_PATTERN ps" by (rule conjunct1)
  then obtain D1 dot D2 S where ps: "ps = [D1, dot, D2, S] @ map (\<lambda>c. [c]) ''out of''"
    and c: "D1 \<noteq> []" "\<forall>c \<in> set D1. is_digit c" "dot = [] \<or> dot = ''.''"
      "\<forall>c \<in> set D2. is_digit c"
    unfolding rating_pieces by (elim exE conjE)
  have "r = D1 @ dot @ D2" unfolding r ps by simp
  with c show ?thesis by (intro exI conjI)
qed

text \<open>
  C8: an element whose text is \<open>4.5 out of 5 stars\<close> gives the rating \<open>4.5\<close>; the rating
  is \<open>None\<close> exactly when the text holds no phrase \<open><number> out of\<close>, in particular
  when \<open>out of\<close> does not occur in it; and a rating that is returned is such a number.
  This holds in both scripts.
\<close>

theorem avg_rating_extraction:
  "(select_one soup (selector ''avg_rating'') = Some element \<longrightarrow>
      get_text element = ''4.5 out of 5 stars'' \<longrightarrow> extract_avg_rating soup = Some ''4.5'')
   \<and> (select_one soup (selector ''avg_rating'') = Some element \<longrightarrow>
      (extract_avg_rating soup = None
        \<longleftrightarrow> \<not> (\<exists>a p b. get_text element = a @ p @ b \<and> rating_phrase p)))
   \<and> (select_one soup (selector ''avg_rating'') = Some element \<longrightarrow>
      \<not> (\<exists>a b. get_text element = a @ ''out of'' @ b) \<longrightarrow> extract_avg_rating soup = None)
   \<and> (query_selector page (selector ''avg_rating'') = Inr (Some handle) \<longrightarrow>
      inner_text handle = Inr t \<longrightarrow> strip t = ''4.5 out of 5 stars'' \<longrightarrow>
      extract_avg_rating_pw page = Inr (Some ''4.5''))
   \<and> (query_selector page (selector ''avg_rating'') = Inr (Some handle) \<longrightarrow>
      inner_text handle = Inr t \<longrightarrow>
      (extract_avg_rating_pw page = Inr None
        \<longleftrightarrow> \<not> (\<exists>a p b. strip t = a @ p @ b \<and> rating_phrase p)))
   \<and> (query_selector page (selector ''avg_rating'') = Inr (Some handle) \<longrightarrow>
      inner_text handle = Inr t \<longrightarrow> \<not> (\<exists>a b. strip t = a @ ''out of'' @ b) \<longrightarrow>
      extract_avg_rating_pw page = Inr None)
   \<and> (rating_of_text x = Some r \<longrightarrow>
        (\<exists>D1 dot D2. r = D1 @ dot @ D2 \<and> D1 \<noteq> [] \<and> (\<forall>c \<in> set D1. is_digit c)
           \<and> (dot = [] \<or> dot = ''.'') \<and> (\<forall>c \<in> set D2. is_digit c)))"
proof -
  have b: "select_one soup (selector ''avg_rating'') = Some element \<Longrightarrow>
      extract_avg_rating soup = rating_of_text (get_text element)"
    by (simp add: extract_avg_rating_def)
  have p: "query_selector page (selector ''avg_rating'') = Inr (Some handle) \<Longrightarrow>
      inner_text handle = Inr t \<Longrightarrow>
      extract_avg_rating_pw page = Inr (rating_of_text (strip t))"
    by (simp add: extract_avg_rating_pw_def except_pass_def)
  show ?thesis
  proof (intro conjI impI)
    assume "select_one soup (selector ''avg_rating'') = Some element"
      and "get_text element = ''4.5 out of 5 stars''"
    then show "extract_avg_rating soup = Some ''4.5''"
      by (simp only: b rating_of_sample)
  next
    assume "select_one soup (selector ''avg_rating'') = Some element"
    then show "extract_avg_rating soup = None
        \<longleftrightarrow> \<not> (\<exists>a p b. get_text element = a @ p @ b \<and> rating_phrase p)"
      by (simp only: b rating_of_text_None_iff)
  next
    assume s: "select_one soup (selector ''avg_rating'') = Some element"
      and n: "\<not> (\<exists>a b. get_text element = a @ ''out of'' @ b)"
    from n have "rating_of_text (get_text element) = None" by (rule rating_of_text_None)
    with b [OF s] show "extract_avg_rating soup = None" by simp
  next
    assume "query_selector page (selector ''avg_rating'') = Inr (Some handle)"
      and "inner_text handle = Inr t" and "strip t = ''4.5 out of 5 stars''"
    then show "extract_avg_rating_pw page = Inr (Some ''4.5'')"
      by (simp only: p rating_of_sample)
  next
    assume "query_selector page (selector ''avg_rating'') = Inr (Some handle)"
      and "inner_text handle = Inr t"
    then show "extract_avg_rating_pw page = Inr None
        \<longleftrightarrow> \<not> (\<exists>a p b. strip t = a @ p @ b \<and> rating_phrase p)"
      by (simp only: p sum.inject rating_of_text_None_iff)
  next
    assume q: "query_selector page (selector ''avg_rating'') = Inr (Some handle)"
      and i: "inner_text handle = Inr t" and n: "\<not> (\<exists>a b. strip t = a @ ''out of'' @ b)"
    from n have "rating_of_text (strip t) = None" by (rule rating_of_text_None)
    with p [OF q i] show "extract_avg_rating_pw page = Inr None" by simp
  next
    assume "rating_of_text x = Some r"
    then show "\<exists>D1 dot D2. r = D1 @ dot @ D2 \<and> D1 \<noteq> [] \<and> (\<forall>c \<in> set D1. is_digit c)
           \<and> (dot = [] \<or> dot = ''.'') \<and> (\<forall>c \<in> set D2. is_digit c)"
      by (rule rating_of_text_Some)
  qed
qed

lemma search_best_out_of: "re_search RATING_PATTERN ''best out of all'' = None"
  by code_simp


theorem avg_rating_extraction_witness:
  "select_one (rating_doc ''4.5 out of 5 stars'') (selector ''avg_rating'')
     = Some (text_tag ''4.5 out of 5 stars'')
   \<and> get_text (text_tag ''4.5 out of 5 stars'') = ''4.5 out of 5 stars''
   \<and> extract_avg_rating (rating_doc ''4.5 out of 5 stars'') = Some ''4.5''
   \<and> select_one (rating_doc ''best out of all'') (selector ''avg_rating'')
     = Some (text_tag ''best out of all'')
   \<and> \<not> (\<exists>a p b. get_text (text_tag ''best out of all'') = a @ p @ b \<and> rating_phrase p)
   \<and> extract_avg_rating (rating_doc ''best out of all'') = None
   \<and> select_one (rating_doc ''Five stars'') (selector ''avg_rating'')
     = Some (text_tag ''Five stars'')
   \<and> \<not> (\<exists>a b. get_text (text_tag ''Five stars'') = a @ ''out of'' @ b)
   \<and> extract_avg_rating (rating_doc ''Five stars'') = None
   \<and> query_selector (rating_page '' 4.5 out of 5 stars '') (selector ''avg_rating'')
     = Inr (Some (text_handle '' 4.5 out of 5 stars ''))
   \<and> inner_text (text_handle '' 4.5 out of 5 stars '') = Inr '' 4.5 out of 5 stars ''
   \<and> strip '' 4.5 out of 5 stars '' = ''4.5 out of 5 stars''
   \<and> extract_avg_rating_pw (rating_page '' 4.5 out of 5 stars '') = Inr (Some ''4.5'')
   \<and> query_selector (rating_page ''best out of all'') (selector ''avg_rating'')
     = Inr (Some (text_handle ''best out of all''))
   \<and> \<not> (\<exists>a p b. strip ''best out of all'' = a @ p @ b \<and> rating_phrase p)
   \<and> extract_avg_rating_pw (rating_page ''best out of all'') = Inr None
   \<and> query_selector (rating_page ''Five stars'') (selector ''avg_rating'')
     = Inr (Some (text_handle ''Five stars''))
   \<and> \<not> (\<exists>a b. strip ''Five stars'' = a @ ''out of'' @ b)
   \<and> extract_avg_rating_pw (rating_page ''Five stars'') = Inr None
   \<and> rating_of_text ''4.5 out of 5 stars'' = Some ''4.5''
   \<and> (\<exists>D1 dot D2. ''4.5'' = D1 @ dot @ D2 \<and> D1 \<noteq> [] \<and> (\<forall>c \<in> set D1. is_digit c)
           \<and> (dot = [] \<or> dot = ''.'') \<and> (\<forall>c \<in> set D2. is_digit c))"
proof -
  have s1: "strip '' 4.5 out of 5 stars '' = ''4.5 out of 5 stars''"
    and s2: "strip ''Five stars'' = ''Five stars''"
    and s3: "strip ''best out of all'' = ''best out of all''"
    and g1: "get_text (text_tag ''4.5 out of 5 stars'') = ''4.5 out of 5 stars''"
    and g2: "get_text (text_tag ''Five stars'') = ''Five stars''"
    and g3: "get_text (text_tag ''best out of all'') = ''best out of all''"
    by (simp_all add: get_text_text_tag strip_def is_space_def)
  have "\<not> str_in ''out of'' ''Five stars''"
    by (simp add: startswith_def)
  then have n: "\<not> (\<exists>a b. ''Five stars'' = a @ ''out of'' @ b)"
    using str_in_iff [of "''out of''" "''Five stars''"] by (simp only: simp_thms)
  have m: "\<not> (\<exists>a p b. ''best out of all'' = a @ p @ b \<and> rating_phrase p)"
  proof
    assume "\<exists>a p b. ''best out of all'' = a @ p @ b \<and> rating_phrase p"
    then have "re_search RATING_PATTERN ''best out of all'' \<noteq> None"
      by (rule iffD1 [OF rating_phrase_search])
    with search_best_out_of show False by (rule notE [rotated])
  qed
  have d1: "select_one (rating_doc ''4.5 out of 5 stars'') (selector ''avg_rating'')
      = Some (text_tag ''4.5 out of 5 stars'')"
    and d2: "select_one (rating_doc ''Five stars'') (selector ''avg_rating'')
      = Some (text_tag ''Five stars'')"
    and d3: "select_one (rating_doc ''best out of all'') (selector ''avg_rating'')
      = Some (text_tag ''best out of all'')"
    and p1: "query_selector (rating_page '' 4.5 out of 5 stars '') (selector ''avg_rating'')
      = Inr (Some (text_handle '' 4.5 out of 5 stars ''))"
    and p2: "query_selector (rating_page ''Five stars'') (selector ''avg_rating'')
      = Inr (Some (text_handle ''Five stars''))"
    and p3: "query_selector (rating_page ''best out of all'') (selector ''avg_rating'')
      = Inr (Some (text_handle ''best out of all''))"
    by (simp_all add: rating_doc_def rating_page_def selector_values sample_simps)
  have i1: "inner_text (text_handle '' 4.5 out of 5 stars '') = Inr '' 4.5 out of 5 stars ''"
    and i2: "inner_text (text_handle ''Five stars'') = Inr ''Five stars''"
    and i3: "inner_text (text_handle ''best out of all'') = Inr ''best out of all''"
    by (simp_all add: sample_simps)
  note a = avg_rating_extraction
    [of "rating_doc ''4.5 out of 5 stars''" "text_tag ''4.5 out of 5 stars''"
        "rating_page '' 4.5 out of 5 stars ''" "text_handle '' 4.5 out of 5 stars ''"
        "'' 4.5 out of 5 stars ''" "''4.5 out of 5 stars''" "''4.5''"]
  note b = avg_rating_extraction
    [of "rating_doc ''Five stars''" "text_tag ''Five stars''"
        "rating_page ''Five stars''" "text_handle ''Five stars''" "''Five stars''" "[]" "[]"]
  note c = avg_rating_extraction
    [of "rating_doc ''best out of all''" "text_tag ''best out of all''"
        "rating_page ''best out of all''" "text_handle ''best out of all''"
        "''best out of all''" "[]" "[]"]
  from a have a1: "select_one (rating_doc ''4.5 out of 5 stars'') (selector ''avg_rating'')
       = Some (text_tag ''4.5 out of 5 stars'') \<longrightarrow>
      get_text (text_tag ''4.5 out of 5 stars'') = ''4.5 out of 5 stars'' \<longrightarrow>
      extract_avg_rating (rating_doc ''4.5 out of 5 stars'') = Some ''4.5''"
    by (rule conjunct1)
  from a1 [rule_format, OF d1 g1]
  have c1: "extract_avg_rating (rating_doc ''4.5 out of 5 stars'') = Some ''4.5''" .
  from a have a4: "query_selector (rating_page '' 4.5 out of 5 stars '') (selector ''avg_rating'')
       = Inr (Some (text_handle '' 4.5 out of 5 stars '')) \<longrightarrow>
      inner_text (text_handle '' 4.5 out of 5 stars '') = Inr '' 4.5 out of 5 stars '' \<longrightarrow>
      strip '' 4.5 out of 5 stars '' = ''4.5 out of 5 stars'' \<longrightarrow>
      extract_avg_rating_pw (rating_page '' 4.5 out of 5 stars '') = Inr (Some ''4.5'')"
    by (elim conjE)
  from a4 [rule_format, OF p1 i1 s1]
  have c2: "extract_avg_rating_pw (rating_page '' 4.5 out of 5 stars '') = Inr (Some ''4.5'')" .
  from a have a7: "rating_of_text ''4.5 out of 5 stars'' = Some ''4.5'' \<longrightarrow>
        (\<exists>D1 dot D2. ''4.5'' = D1 @ dot @ D2 \<and> D1 \<noteq> [] \<and> (\<forall>c \<in> set D1. is_digit c)
           \<and> (dot = [] \<or> dot = ''.'') \<and> (\<forall>c \<in> set D2. is_digit c))"
    by (elim conjE)
  from a7 [rule_format, OF rating_of_sample]
  have c7: "\<exists>D1 dot D2. ''4.5'' = D1 @ dot @ D2 \<and> D1 \<noteq> [] \<and> (\<forall>c \<in> set D1. is_digit c)
           \<and> (dot = [] \<or> dot = ''.'') \<and> (\<forall>c \<in> set D2. is_digit c)" .
  from b have b3: "select_one (rating_doc ''Five stars'') (selector ''avg_rating'')
       = Some (text_tag ''Five stars'') \<longrightarrow>
      \<not> (\<exists>a b. get_text (text_tag ''Five stars'') = a @ ''out of'' @ b) \<longrightarrow>
      extract_avg_rating (rating_doc ''Five stars'') = None"
    by (elim conjE)
  have n': "\<not> (\<exists>a b. get_text (text_tag ''Five stars'') = a @ ''out of'' @ b)"
    unfolding g2 by (rule n)
  from b3 [rule_format, OF d2 n']
  have c3: "extract_avg_rating (rating_doc ''Five stars'') = None" .
  from b have b6: "query_selector (rating_page ''Five stars'') (selector ''avg_rating'')
       = Inr (Some (text_handle ''Five stars'')) \<longrightarrow>
      inner_text (text_handle ''Five stars'') = Inr ''Five stars'' \<longrightarrow>
      \<not> (\<exists>a b. strip ''Five stars'' = a @ ''out of'' @ b) \<longrightarrow>
      extract_avg_rating_pw (rating_page ''Five stars'') = Inr None"
    by (elim conjE)
  have n'': "\<not> (\<exists>a b. strip ''Five stars'' = a @ ''out of'' @ b)"
    unfolding s2 by (rule n)
  from b6 [rule_format, OF p2 i2 n'']
  have c4: "extract_avg_rating_pw (rating_page ''Five stars'') = Inr None" .
  from c have e2: "select_one (rating_doc ''best out of all'') (selector ''avg_rating'')
       = Some (text_tag ''best out of all'') \<longrightarrow>
      (extract_avg_rating (rating_doc ''best out of all'') = None
        \<longleftrightarrow> \<not> (\<exists>a p b. get_text (text_tag ''best out of all'') = a @ p @ b \<and> rating_phrase p))"
    by (elim conjE)
  have m': "\<not> (\<exists>a p b. get_text (text_tag ''best out of all'') = a @ p @ b \<and> rating_phrase p)"
    unfolding g3 by (rule m)
  from iffD2 [OF e2 [rule_format, OF d3] m']
  have c5: "extract_avg_rating (rating_doc ''best out of all'') = None" .
  from c have e5: "query_selector (rating_page ''best out of all'') (selector ''avg_rating'')
       = Inr (Some (text_handle ''best out of all'')) \<longrightarrow>
      inner_text (text_handle ''best out of all'') = Inr ''best out of all'' \<longrightarrow>
      (extract_avg_rating_pw (rating_page ''best out of all'') = Inr None
        \<longleftrightarrow> \<not> (\<exists>a p b. strip ''best out of all'' = a @ p @ b \<and> rating_phrase p))"
    by (elim conjE)
  have m'': "\<not> (\<exists>a p b. strip ''best out of all'' = a @ p @ b \<and> rating_phrase p)"
    unfolding s3 by (rule m)
  from iffD2 [OF e5 [rule_format, OF p3 i3] m'']
  have c6: "extract_avg_rating_pw (rating_page ''best out of all'') = Inr None" .
  show ?thesis
    using d1 g1 c1 d3 m' c5 d2 n' c3 p1 i1 s1 c2 p3 m'' c6 p2 n'' c4 rating_of_sample c7
    by (intro conjI)
qed

section \<open>Review count as numeric text\<close>

lemma review_count_no_comma:
  "review_count_of_text x = Some r \<Longrightarrow> (\<forall>c \<in> set r. is_digit c) \<and> CHR '','' \<notin> set r"
  unfolding review_count_of_text_eq
  by (auto split: if_splits dest: set_takeWhileD)

text \<open>
  C6 asks for a non-empty string of digits whenever the review count is not \<open>None\<close>.
  The pattern \<open>[\d,]+\<close> also matches a run of commas alone, and the leftmost match wins:
  on the text \<open>Rated, 12 times\<close> the match is the comma, and the result is the empty
  string although the text holds the number 12.
\<close>

theorem review_count_empty_string:
  "extract_review_count (reviews_doc ''Rated, 12 times'') = Some []
   \<and> extract_review_count_pw (reviews_page ''Rated, 12 times'') = Inr (Some [])"
proof -
  have s: "strip ''Rated, 12 times'' = ''Rated, 12 times''"
    by (simp add: strip_def is_space_def)
  have r: "review_count_of_text ''Rated, 12 times'' = Some []"
    by (simp add: review_count_of_text_eq is_digit_def)
  show ?thesis
    by (simp add: extract_review_count_def extract_review_count_pw_def except_pass_def
        reviews_doc_def reviews_page_def selector_values sample_simps get_text_text_tag s r)
qed

section \<open>The out-of-stock flag\<close>

lemma out_of_stock_of_iff:
  "out_of_stock_of v \<longleftrightarrow>
     (\<exists>a. v = Some a \<and>
        (\<exists>kw \<in> set [''out of stock'', ''unavailable'', ''currently unavailable''].
           \<exists>pre post. lower a = pre @ kw @ post))"
proof (cases v)
  case None
  then show ?thesis by (simp add: out_of_stock_of_def)
next
  case (Some a)
  show ?thesis
  proof (cases "a = []")
    case True
    with Some show ?thesis by (simp add: out_of_stock_of_def lower_def)
  next
    case False
    with Some show ?thesis
      by (simp add: out_of_stock_of_def out_of_stock_keywords_def str_in_iff)
  qed
qed

lemma extract_availability_pw_returns: "\<exists>v. extract_availability_pw page = Inr v"
  by (simp add: extract_availability_pw_def except_pass_def split: sum.splits)

text \<open>
  C2: the flag is true exactly when the extracted availability is a string whose lowercased
  text contains \<open>out of stock\<close>, \<open>unavailable\<close> or \<open>currently unavailable\<close>; it is false
  otherwise, also when the availability is \<open>None\<close>.  In the Playwright script the function
  returns normally with that value.
\<close>

theorem out_of_stock_iff:
  "(extract_out_of_stock soup \<longleftrightarrow>
      (\<exists>a. extract_availability soup = Some a \<and>
         (\<exists>kw \<in> set [''out of stock'', ''unavailable'', ''currently unavailable''].
            \<exists>pre post. lower a = pre @ kw @ post)))
   \<and> (\<exists>b. extract_out_of_stock_pw page = Inr b \<and>
        (b \<longleftrightarrow>
          (\<exists>a. extract_availability_pw page = Inr (Some a) \<and>
             (\<exists>kw \<in> set [''out of stock'', ''unavailable'', ''currently unavailable''].
                \<exists>pre post. lower a = pre @ kw @ post))))"
proof
  show "extract_out_of_stock soup \<longleftrightarrow>
      (\<exists>a. extract_availability soup = Some a \<and>
         (\<exists>kw \<in> set [''out of stock'', ''unavailable'', ''currently unavailable''].
            \<exists>pre post. lower a = pre @ kw @ post))"
    unfolding extract_out_of_stock_def by (rule out_of_stock_of_iff)
next
  obtain v where v: "extract_availability_pw page = Inr v"
    using extract_availability_pw_returns by blast
  then have "extract_out_of_stock_pw page = Inr (out_of_stock_of v)"
    by (simp add: extract_out_of_stock_pw_def)
  with v show "\<exists>b. extract_out_of_stock_pw page = Inr b \<and>
        (b \<longleftrightarrow>
          (\<exists>a. extract_availability_pw page = Inr (Some a) \<and>
             (\<exists>kw \<in> set [''out of stock'', ''unavailable'', ''currently unavailable''].
                \<exists>pre post. lower a = pre @ kw @ post)))"
    using out_of_stock_of_iff [of v] by simp
qed

lemma lower_sample_1: "lower ''Currently unavailable.'' = ''currently unavailable.''"
  by code_simp

lemma lower_sample_2: "lower ''In Stock'' = ''in stock''"
  by code_simp

theorem out_of_stock_iff_witness:
  "extract_availability (availability_doc ''Currently unavailable.'')
     = Some ''Currently unavailable.''
   \<and> extract_out_of_stock (availability_doc ''Currently unavailable.'')
   \<and> extract_availability (availability_doc ''In Stock'') = Some ''In Stock''
   \<and> \<not> extract_out_of_stock (availability_doc ''In Stock'')
   \<and> extract_availability empty_doc = None
   \<and> \<not> extract_out_of_stock empty_doc
   \<and> extract_out_of_stock_pw (availability_page ''Currently unavailable.'') = Inr True
   \<and> extract_out_of_stock_pw empty_page = Inr False"
proof -
  have s: "strip ''Currently unavailable.'' = ''Currently unavailable.''"
    "strip ''In Stock'' = ''In Stock''"
    by (simp_all add: strip_def is_space_def)
  have a1: "extract_availability (availability_doc ''Currently unavailable.'')
      = Some ''Currently unavailable.''"
    and a2: "extract_availability (availability_doc ''In Stock'') = Some ''In Stock''"
    and a3: "extract_availability empty_doc = None"
    by (simp_all add: extract_availability_def availability_doc_def empty_doc_def
        selector_values sample_simps get_text_text_tag s select_one_def doc_of_def)
  have p1: "extract_availability_pw (availability_page ''Currently unavailable.'')
      = Inr (Some ''Currently unavailable.'')"
    and p3: "extract_availability_pw empty_page = Inr None"
    by (simp_all add: extract_availability_pw_def availability_page_def empty_page_def
        except_pass_def selector_values sample_simps s page_of_def)
  have k1: "''currently unavailable.'' = ''currently '' @ ''unavailable'' @ ''.''" by simp
  have "\<not> str_in ''out of stock'' ''in stock''" "\<not> str_in ''unavailable'' ''in stock''"
    "\<not> str_in ''currently unavailable'' ''in stock''"
    by (simp_all add: startswith_def)
  then have k2: "\<not> (\<exists>kw \<in> set [''out of stock'', ''unavailable'', ''currently unavailable''].
            \<exists>pre post. ''in stock'' = pre @ kw @ post)"
    using str_in_iff [of "''out of stock''" "''in stock''"]
      str_in_iff [of "''unavailable''" "''in stock''"]
      str_in_iff [of "''currently unavailable''" "''in stock''"]
    by (simp only: set_simps ball_simps bex_simps empty_iff insert_iff bex_triv_one_point1
        bex_triv_one_point2 simp_thms)
  note t1 = out_of_stock_iff [of "availability_doc ''Currently unavailable.''"
      "availability_page ''Currently unavailable.''"]
  note t2 = out_of_stock_iff [of "availability_doc ''In Stock''" empty_page]
  note t3 = out_of_stock_iff [of empty_doc empty_page]
  have r1: "\<exists>kw \<in> set [''out of stock'', ''unavailable'', ''currently unavailable''].
            \<exists>pre post. lower ''Currently unavailable.'' = pre @ kw @ post"
  proof (intro bexI exI)
    show "lower ''Currently unavailable.'' = ''currently '' @ ''unavailable'' @ ''.''"
      unfolding lower_sample_1 by (rule k1)
    show "''unavailable'' \<in> set [''out of stock'', ''unavailable'', ''currently unavailable'']"
      by simp
  qed
  have c1: "extract_out_of_stock (availability_doc ''Currently unavailable.'')"
  proof (rule iffD2 [OF conjunct1 [OF t1]])
    show "\<exists>a. extract_availability (availability_doc ''Currently unavailable.'') = Some a \<and>
         (\<exists>kw \<in> set [''out of stock'', ''unavailable'', ''currently unavailable''].
            \<exists>pre post. lower a = pre @ kw @ post)"
      using a1 r1 by (intro exI conjI)
  qed
  have c2: "\<not> extract_out_of_stock (availability_doc ''In Stock'')"
  proof
    assume "extract_out_of_stock (availability_doc ''In Stock'')"
    from iffD1 [OF conjunct1 [OF t2] this]
    obtain a where e: "extract_availability (availability_doc ''In Stock'') = Some a"
      and k: "\<exists>kw \<in> set [''out of stock'', ''unavailable'', ''currently unavailable''].
            \<exists>pre post. lower a = pre @ kw @ post"
      by (elim exE conjE)
    from e a2 have "a = ''In Stock''" by (simp only: option.inject)
    with k have "\<exists>kw \<in> set [''out of stock'', ''unavailable'', ''currently unavailable''].
            \<exists>pre post. ''in stock'' = pre @ kw @ post"
      by (simp only: lower_sample_2)
    with k2 show False by (rule notE)
  qed
  have c3: "\<not> extract_out_of_stock empty_doc"
  proof
    assume "extract_out_of_stock empty_doc"
    from iffD1 [OF conjunct1 [OF t3] this]
    obtain a where "extract_availability empty_doc = Some a" by (elim exE conjE)
    with a3 show False by simp
  qed
  from conjunct2 [OF t1] obtain b1 where
    b1: "extract_out_of_stock_pw (availability_page ''Currently unavailable.'') = Inr b1"
    and e1: "b1 \<longleftrightarrow>
        (\<exists>a. extract_availability_pw (availability_page ''Currently unavailable.'')
              = Inr (Some a) \<and>
           (\<exists>kw \<in> set [''out of stock'', ''unavailable'', ''currently unavailable''].
              \<exists>pre post. lower a = pre @ kw @ post))"
    by (elim exE conjE)
  have b1
  proof (rule iffD2 [OF e1])
    show "\<exists>a. extract_availability_pw (availability_page ''Currently unavailable.'')
              = Inr (Some a) \<and>
           (\<exists>kw \<in> set [''out of stock'', ''unavailable'', ''currently unavailable''].
              \<exists>pre post. lower a = pre @ kw @ post)"
      using p1 r1 by (intro exI conjI)
  qed
  with b1 have c4:
    "extract_out_of_stock_pw (availability_page ''Currently unavailable.'') = Inr True"
    by simp
  from conjunct2 [OF t3] obtain b3 where
    b3: "extract_out_of_stock_pw empty_page = Inr b3"
    and e3: "b3 \<longleftrightarrow>
        (\<exists>a. extract_availability_pw empty_page = Inr (Some a) \<and>
           (\<exists>kw \<in> set [''out of stock'', ''unavailable'', ''currently unavailable''].
              \<exists>pre post. lower a = pre @ kw @ post))"
    by (elim exE conjE)
  have "\<not> b3"
  proof
    assume b3
    from iffD1 [OF e3 this] obtain a where "extract_availability_pw empty_page = Inr (Some a)"
      by (elim exE conjE)
    with p3 show False by simp
  qed
  with b3 have c5: "extract_out_of_stock_pw empty_page = Inr False" by simp
  show ?thesis using a1 a2 a3 c1 c2 c3 c4 c5 by (intro conjI)
qed

section \<open>A document on which nothing matches\<close>

lemma select_one_empty: "soup s = [] \<Longrightarrow> select_one soup s = None"
  by (simp add: select_one_def)

lemma product_data_empty:
  assumes "\<forall>s. select soup s = []"
  shows "product_data soup url =
     [(''title'', PyNone), (''price'', PyNone), (''avg_rating'', PyNone),
      (''review_count'', PyNone), (''availability'', PyNone), (''out_of_stock'', PyBool False),
      (''description'', PyNone), (''features'', PyList []), (''images'', PyList []),
      (''category'', PyNone), (''ships_from'', PyNone), (''sold_by'', PyNone),
      (''url'', PyStr url)]"
proof -
  from assms have e: "\<And>s. soup s = []" by (simp add: select_def)
  then have o: "\<And>s. select_one soup s = None" by (simp add: select_one_def)
  have s: "\<And>s. select soup s = []" using assms by simp
  show ?thesis
    unfolding product_data_def extract_title_def extract_price_def extract_avg_rating_def
      extract_review_count_def extract_availability_def extract_out_of_stock_def
      extract_description_def extract_features_def extract_images_def extract_category_def
      extract_ships_from_def extract_sold_by_def o s
    by (simp add: opt_val_def out_of_stock_of_def)
qed

lemma raise_for_status_ok:
  "\<not> (400 \<le> status_code r \<and> status_code r < 600) \<Longrightarrow> raise_for_status r = Inr ()"
  by (auto simp: raise_for_status_def)

text \<open>
  C3: when no selector matches anything, the record has the thirteen keys, every scalar
  \<open>None\<close>, both lists empty, the flag false and the page address under \<open>url\<close>; and
  \<open>scrape_amazon_product\<close> returns this record once the page has been fetched.
\<close>

theorem empty_document_record:
  assumes "\<forall>s. select soup s = []"
  shows "product_data soup url =
     [(''title'', PyNone), (''price'', PyNone), (''avg_rating'', PyNone),
      (''review_count'', PyNone), (''availability'', PyNone), (''out_of_stock'', PyBool False),
      (''description'', PyNone), (''features'', PyList []), (''images'', PyList []),
      (''category'', PyNone), (''ships_from'', PyNone), (''sold_by'', PyNone),
      (''url'', PyStr url)]
   \<and> (\<forall>env r. requests_get env url = Inr r
         \<and> \<not> (400 \<le> status_code r \<and> status_code r < 600)
         \<and> BeautifulSoup env (content r) = soup
       \<longrightarrow> scrape_amazon_product env url = ([], Some (product_data soup url)))"
proof (rule conjI)
  show "product_data soup url =
     [(''title'', PyNone), (''price'', PyNone), (''avg_rating'', PyNone),
      (''review_count'', PyNone), (''availability'', PyNone), (''out_of_stock'', PyBool False),
      (''description'', PyNone), (''features'', PyList []), (''images'', PyList []),
      (''category'', PyNone), (''ships_from'', PyNone), (''sold_by'', PyNone),
      (''url'', PyStr url)]"
    using assms by (rule product_data_empty)
next
  show "\<forall>env r. requests_get env url = Inr r
         \<and> \<not> (400 \<le> status_code r \<and> status_code r < 600)
         \<and> BeautifulSoup env (content r) = soup
       \<longrightarrow> scrape_amazon_product env url = ([], Some (product_data soup url))"
  proof (intro allI impI, elim conjE)
    fix env :: env and r :: response
    assume g: "requests_get env url = Inr r"
      and st: "\<not> (400 \<le> status_code r \<and> status_code r < 600)"
      and b: "BeautifulSoup env (content r) = soup"
    from raise_for_status_ok [OF st] have "raise_for_status r = Inr ()" .
    with g b show "scrape_amazon_product env url = ([], Some (product_data soup url))"
      by (simp add: scrape_amazon_product_def fetch_page_def)
  qed
qed

theorem empty_document_record_witness:
  "(\<forall>s. select empty_doc s = [])
   \<and> requests_get blank_env TARGET_URL = Inr \<lparr>status_code = 200, reason = ''OK'', content = [],
          response_url = TARGET_URL\<rparr>
   \<and> BeautifulSoup blank_env [] = empty_doc
   \<and> scrape_amazon_product blank_env TARGET_URL =
     ([], Some [(''title'', PyNone), (''price'', PyNone), (''avg_rating'', PyNone),
      (''review_count'', PyNone), (''availability'', PyNone), (''out_of_stock'', PyBool False),
      (''description'', PyNone), (''features'', PyList []), (''images'', PyList []),
      (''category'', PyNone), (''ships_from'', PyNone), (''sold_by'', PyNone),
      (''url'', PyStr TARGET_URL)])"
proof -
  have h: "\<forall>s. select empty_doc s = []"
    by (simp add: select_def empty_doc_def doc_of_def)
  have g: "requests_get blank_env TARGET_URL
      = Inr \<lparr>status_code = 200, reason = ''OK'', content = [],
          response_url = TARGET_URL\<rparr>"
    and b: "BeautifulSoup blank_env (content \<lparr>status_code = 200, reason = ''OK'', content = [],
          response_url = TARGET_URL\<rparr>)
      = empty_doc"
    and b': "BeautifulSoup blank_env [] = empty_doc"
    and st: "\<not> (400 \<le> status_code \<lparr>status_code = 200, reason = ''OK'', content = [],
          response_url = TARGET_URL\<rparr>
         \<and> status_code \<lparr>status_code = 200, reason = ''OK'', content = [],
          response_url = TARGET_URL\<rparr> < 600)"
    by (simp_all add: blank_env_def)
  note t = empty_document_record [OF h, of TARGET_URL]
  from conjunct2 [OF t, rule_format, of blank_env, OF conjI [OF g conjI [OF st b]]]
  have "scrape_amazon_product blank_env TARGET_URL
      = ([], Some (product_data empty_doc TARGET_URL))" .
  then have "scrape_amazon_product blank_env TARGET_URL =
     ([], Some [(''title'', PyNone), (''price'', PyNone), (''avg_rating'', PyNone),
      (''review_count'', PyNone), (''availability'', PyNone), (''out_of_stock'', PyBool False),
      (''description'', PyNone), (''features'', PyList []), (''images'', PyList []),
      (''category'', PyNone), (''ships_from'', PyNone), (''sold_by'', PyNone),
      (''url'', PyStr TARGET_URL)])"
    unfolding conjunct1 [OF t] .
  with h g b' show ?thesis by (intro conjI)
qed

section \<open>Acquisition failure\<close>

lemma handle_request_exception_one: "\<exists>msg. handle_request_exception e = [Stderr msg]"
  by (cases e) (simp_all add: handle_request_exception_def)

lemma handle_pw_exception_one: "\<exists>msg. handle_pw_exception e = [Stderr msg]"
  by (cases e) (simp_all add: handle_pw_exception_def)

lemma fetch_page_fails:
  assumes "requests_get env url = Inl e \<or>
     (\<exists>r. requests_get env url = Inr r \<and> 400 \<le> status_code r \<and> status_code r < 600)"
  shows "\<exists>msg. fetch_page env url = ([Stderr msg], None)"
  using assms
proof
  assume "requests_get env url = Inl e"
  then show ?thesis
    using handle_request_exception_one [of e] by (auto simp: fetch_page_def)
next
  assume "\<exists>r. requests_get env url = Inr r \<and> 400 \<le> status_code r \<and> status_code r < 600"
  then obtain r where g: "requests_get env url = Inr r"
    and st: "400 \<le> status_code r" "status_code r < 600" by blast
  then have "\<exists>m. raise_for_status r = Inl (HTTPError m)"
    by (cases "status_code r < 500") (simp_all add: raise_for_status_def)
  then obtain m where "raise_for_status r = Inl (HTTPError m)" ..
  with g show ?thesis
    by (simp add: fetch_page_def handle_request_exception_def)
qed

text \<open>
  C4: when the request raises (timeout, connection error or any other exception of the
  library) or the response carries an HTTP error status, \<open>scrape_amazon_product\<close> returns no
  record; \<open>main\<close> prints its banner, one error line and the failure line, both on the error
  stream, prints no record and exits with status 1; and the outcome does not depend on the
  parser, which is never reached.
\<close>

theorem acquisition_failure:
  assumes "requests_get env TARGET_URL = Inl e \<or>
     (\<exists>r. requests_get env TARGET_URL = Inr r \<and> 400 \<le> status_code r \<and> status_code r < 600)"
  shows "snd (scrape_amazon_product env TARGET_URL) = None
   \<and> (\<exists>msg. main env =
          ([Stdout (''scraping: '' @ TARGET_URL @ [CHR 0x0A]), Stderr msg,
            Stderr ''failed to scrape product data''], 1))
   \<and> (\<forall>d. StdoutJson d \<notin> set (fst (main env)))
   \<and> snd (main env) \<noteq> 0
   \<and> (\<forall>parser. main (env\<lparr>BeautifulSoup := parser\<rparr>) = main env)"
proof -
  from fetch_page_fails [OF assms] obtain msg where f: "fetch_page env TARGET_URL = ([Stderr msg], None)"
    by blast
  then have s: "scrape_amazon_product env TARGET_URL = ([Stderr msg], None)"
    by (simp add: scrape_amazon_product_def)
  then have m: "main env =
      ([Stdout (''scraping: '' @ TARGET_URL @ [CHR 0x0A]), Stderr msg,
        Stderr ''failed to scrape product data''], 1)"
    by (simp add: main_def finish_def)
  have p: "main (env\<lparr>BeautifulSoup := parser\<rparr>) = main env" for parser
  proof -
    have "fetch_page (env\<lparr>BeautifulSoup := parser\<rparr>) TARGET_URL = fetch_page env TARGET_URL"
      using f by (auto simp: fetch_page_def split: sum.splits)
    then show ?thesis by (simp add: main_def scrape_amazon_product_def)
  qed
  from m have j: "\<forall>d. StdoutJson d \<notin> set (fst (main env))" by simp
  from m have z: "snd (main env) \<noteq> 0" by simp
  from s have "snd (scrape_amazon_product env TARGET_URL) = None" by simp
  moreover from m have "\<exists>msg. main env =
          ([Stdout (''scraping: '' @ TARGET_URL @ [CHR 0x0A]), Stderr msg,
            Stderr ''failed to scrape product data''], 1)" by blast
  ultimately show ?thesis using j z p by blast
qed

theorem acquisition_failure_witness:
  "requests_get refusing_env TARGET_URL = Inl (ConnectionError ''connection refused'')
   \<and> main refusing_env =
     ([Stdout (''scraping: '' @ TARGET_URL @ [CHR 0x0A]),
       Stderr ''error: failed to connect to the server'',
       Stderr ''failed to scrape product data''], 1)
   \<and> snd (scrape_amazon_product refusing_env TARGET_URL) = None
   \<and> (\<forall>d. StdoutJson d \<notin> set (fst (main refusing_env)))
   \<and> requests_get not_found_env TARGET_URL
       = Inr \<lparr>status_code = 404, reason = ''Not Found'', content = [],
          response_url = TARGET_URL\<rparr>
   \<and> snd (scrape_amazon_product not_found_env TARGET_URL) = None
   \<and> snd (main not_found_env) \<noteq> 0"
proof -
  have g1: "requests_get refusing_env TARGET_URL = Inl (ConnectionError ''connection refused'')"
    by (simp add: refusing_env_def)
  have g2: "requests_get not_found_env TARGET_URL
       = Inr \<lparr>status_code = 404, reason = ''Not Found'', content = [],
          response_url = TARGET_URL\<rparr>"
    by (simp add: not_found_env_def)
  have h2: "\<exists>r. requests_get not_found_env TARGET_URL = Inr r
      \<and> 400 \<le> status_code r \<and> status_code r < 600"
    unfolding g2 by simp
  note a = acquisition_failure [of refusing_env "ConnectionError ''connection refused''",
      OF disjI1 [OF g1]]
  note b = acquisition_failure [of not_found_env "ConnectionError []", OF disjI2 [OF h2]]
  have m: "main refusing_env =
     ([Stdout (''scraping: '' @ TARGET_URL @ [CHR 0x0A]),
       Stderr ''error: failed to connect to the server'',
       Stderr ''failed to scrape product data''], 1)"
    by (simp add: main_def finish_def scrape_amazon_product_def fetch_page_def
        handle_request_exception_def refusing_env_def)
  from a have a1: "snd (scrape_amazon_product refusing_env TARGET_URL) = None"
    by (rule conjunct1)
  from a have a2: "\<forall>d. StdoutJson d \<notin> set (fst (main refusing_env))"
    by (elim conjE)
  from b have b1: "snd (scrape_amazon_product not_found_env TARGET_URL) = None"
    by (rule conjunct1)
  from b have b2: "snd (main not_found_env) \<noteq> 0"
    by (elim conjE)
  show ?thesis using g1 m a1 a2 g2 b1 b2 by (intro conjI)
qed

lemma acquisition_failure_pw:
  assumes "new_page b = Inl e \<or> load b TARGET_URL = Inl e"
  shows "snd (scrape_amazon_product_pw b TARGET_URL) = None
   \<and> (\<forall>d. StdoutJson d \<notin> set (fst (main_pw b)))
   \<and> snd (main_pw b) = 1"
proof -
  obtain msg where h: "handle_pw_exception e = [Stderr msg]"
    using handle_pw_exception_one by blast
  obtain msg' where h': "\<And>x. new_page b = Inl x \<Longrightarrow> handle_pw_exception x = [Stderr (msg' x)]"
    using handle_pw_exception_one by metis
  show ?thesis
    using assms h h'
    by (auto simp: scrape_amazon_product_pw_def main_pw_def finish_def split: sum.splits)
qed

section \<open>Features\<close>

lemma keep_feature_iff: "keep_feature t \<longleftrightarrow> 5 < length t"
  by (auto simp: keep_feature_def)

lemma features_loop_eq:
  "features_loop elements acc = acc @ filter (\<lambda>t. 5 < length t) (map get_text elements)"
  by (induction elements arbitrary: acc) (simp_all add: keep_feature_iff)

lemma features_loop_pw_eq:
  "map inner_text elements = map Inr raw \<Longrightarrow>
     features_loop_pw elements acc =
       (acc @ filter (\<lambda>t. 5 < length t) (map strip raw), None)"
proof (induction elements arbitrary: acc raw)
  case Nil
  then show ?case by simp
next
  case (Cons h hs)
  then obtain r rs where raw: "raw = r # rs" and h: "inner_text h = Inr r"
    and hs: "map inner_text hs = map Inr rs"
    by (cases raw) auto
  from Cons.IH [OF hs] show ?case by (simp add: raw h keep_feature_iff)
qed

text \<open>
  C9: the features are the stripped texts of the matched elements that are longer than five
  characters, in document order and with repetitions kept.  In the Playwright script this
  is the result when the browser returns the elements and the text of each.
\<close>

theorem features_filter:
  "extract_features soup =
     filter (\<lambda>t. 5 < length t) (map get_text (select soup (selector ''features'')))
   \<and> (query_selector_all page (selector ''features'') = Inr elements \<longrightarrow>
        map inner_text elements = map Inr raw \<longrightarrow>
        extract_features_pw page = Inr (filter (\<lambda>t. 5 < length t) (map strip raw)))"
  by (simp add: extract_features_def extract_features_pw_def features_loop_eq
      features_loop_pw_eq)

lemma strip_samples:
  "map strip sample_features = [''Quiet clicks'', ''USB-C'', [], ''8K DPI sensor'', ''Quiet clicks'']"
  by (simp add: sample_features_def strip_def is_space_def)

theorem features_filter_witness:
  "query_selector_all (features_page sample_features) (selector ''features'')
     = Inr (map text_handle sample_features)
   \<and> map inner_text (map text_handle sample_features) = map Inr sample_features
   \<and> extract_features_pw (features_page sample_features)
     = Inr [''Quiet clicks'', ''8K DPI sensor'', ''Quiet clicks'']
   \<and> extract_features (features_doc sample_features)
     = [''Quiet clicks'', ''8K DPI sensor'', ''Quiet clicks'']"
proof -
  have q: "query_selector_all (features_page sample_features) (selector ''features'')
     = Inr (map text_handle sample_features)"
    by (simp add: features_page_def selector_values sample_simps)
  have i: "map inner_text (map text_handle sample_features) = map Inr sample_features"
    by (simp add: sample_simps)
  have d: "map get_text (select (features_doc sample_features) (selector ''features''))
     = map strip sample_features"
    by (simp add: features_doc_def selector_values sample_simps get_text_text_tag)
  note t = features_filter [of "features_doc sample_features" "features_page sample_features"
      "map text_handle sample_features" sample_features]
  from conjunct2 [OF t, rule_format, OF q i]
  have p: "extract_features_pw (features_page sample_features)
     = Inr [''Quiet clicks'', ''8K DPI sensor'', ''Quiet clicks'']"
    unfolding strip_samples by simp
  from conjunct1 [OF t]
  have b: "extract_features (features_doc sample_features)
     = [''Quiet clicks'', ''8K DPI sensor'', ''Quiet clicks'']"
    unfolding d strip_samples by simp
  show ?thesis using q i p b by (intro conjI)
qed

section \<open>The size-token rewrite\<close>

lemma match_here_One:
  "match_here ((p, One) # as) s =
     (case s of [] \<Rightarrow> None
      | c # cs \<Rightarrow> if p c then map_option ((#) [c]) (match_here as cs) else None)"
proof (cases s)
  case Nil
  then show ?thesis by simp
next
  case (Cons c cs)
  show ?thesis
  proof (cases "p c")
    case True
    have "min 1 (length (takeWhile p (c # cs))) = Suc 0" using True by simp
    then show ?thesis using Cons True
      by (cases "match_here as cs") (simp_all add: Let_def)
  next
    case False
    then show ?thesis using Cons by simp
  qed
qed





lemma thumb_no_match_at: "c \<noteq> CHR ''.'' \<Longrightarrow> match_here THUMB_PATTERN (c # cs) = None"
  by (simp add: THUMB_PATTERN_def lit_def match_here_One del: match_here.simps)

lemma enlarge_keeps_http: "startswith u ''http'' \<Longrightarrow> startswith (enlarge u) ''http''"
proof -
  assume "startswith u ''http''"
  then obtain rest where u: "u = ''http'' @ rest" by (auto simp: startswith_iff)
  have "enlarge u = ''http'' @ enlarge rest"
    unfolding u enlarge_def by (simp add: thumb_no_match_at del: match_here.simps)
  then show ?thesis by (simp add: startswith_def)
qed







section \<open>The rewrite and the thumbnail loop\<close>



lemma enlarge_thumb_url:
  "enlarge thumb_url = ''https://m.media-amazon.com/images/I/41abc._AC_SL1500_.jpg''"
  by code_simp


section \<open>Images\<close>

lemma THUMBNAIL_value: "THUMBNAIL_SELECTOR = ''#altImages img.a-dynamic-image''"
  by (simp add: THUMBNAIL_SELECTOR_def)

lemma remdups_drop_earlier:
  "x \<in> set ys \<Longrightarrow> remdups (xs @ x # ys) = remdups (xs @ ys)"
  by (induction xs) auto

lemma append_thumb_cases:
  "append_thumb v images = images \<or>
   (\<exists>u. v = Some u \<and> u \<noteq> [] \<and> startswith u ''http'' \<and> enlarge u \<notin> set images
        \<and> append_thumb v images = images @ [enlarge u])"
  by (cases v) (auto simp: append_thumb_def Let_def)

lemma append_thumb_distinct: "distinct images \<Longrightarrow> distinct (append_thumb v images)"
  using append_thumb_cases [of v images] by auto

lemma append_thumb_http:
  "\<forall>u \<in> set images. startswith u ''http'' \<Longrightarrow>
   \<forall>u \<in> set (append_thumb v images). startswith u ''http''"
  using append_thumb_cases [of v images] by (auto dest: enlarge_keeps_http)

lemma append_thumb_prefix: "\<exists>ext. append_thumb v images = images @ ext"
  using append_thumb_cases [of v images] by auto

lemma append_thumb_dedup:
  "distinct images \<Longrightarrow>
   rev (remdups (rev (append_thumb v images @ large_urls vs)))
     = rev (remdups (rev (images @ large_urls (v # vs))))"
  by (cases v) (auto simp: append_thumb_def large_urls_def Let_def remdups_drop_earlier)

lemma thumbs_loop_inv:
  "distinct images \<Longrightarrow> \<forall>u \<in> set images. startswith u ''http'' \<Longrightarrow>
   distinct (thumbs_loop thumbs images)
   \<and> (\<forall>u \<in> set (thumbs_loop thumbs images). startswith u ''http'')
   \<and> thumbs_loop thumbs images
       = rev (remdups (rev (images @ large_urls (map (\<lambda>t. get_attr t ''src'') thumbs))))"
proof (induction thumbs arbitrary: images)
  case Nil
  then show ?case by (simp add: large_urls_def distinct_remdups_id)
next
  case (Cons t ts)
  let ?v = "get_attr t ''src''"
  note ih = Cons.IH [OF append_thumb_distinct [OF Cons.prems(1)]
      append_thumb_http [OF Cons.prems(2)], of ?v]
  have "rev (remdups (rev (append_thumb ?v images @ large_urls (map (\<lambda>t. get_attr t ''src'') ts))))
     = rev (remdups (rev (images @ large_urls (map (\<lambda>t. get_attr t ''src'') (t # ts)))))"
    using append_thumb_dedup [OF Cons.prems(1)] by simp
  with ih show ?case by simp
qed

lemma thumbs_loop_pw_inv:
  "distinct images \<Longrightarrow> \<forall>u \<in> set images. startswith u ''http'' \<Longrightarrow>
   distinct (fst (thumbs_loop_pw thumbs images))
   \<and> (\<forall>u \<in> set (fst (thumbs_loop_pw thumbs images)). startswith u ''http'')
   \<and> (\<exists>ext. fst (thumbs_loop_pw thumbs images) = images @ ext)"
proof (induction thumbs arbitrary: images)
  case Nil
  then show ?case by simp
next
  case (Cons t ts)
  show ?case
  proof (cases "get_attribute t ''src''")
    case (Inl e)
    with Cons.prems show ?thesis by simp
  next
    case (Inr v)
    note ih = Cons.IH [OF append_thumb_distinct [OF Cons.prems(1)]
        append_thumb_http [OF Cons.prems(2)], of v]
    obtain e1 where "append_thumb v images = images @ e1"
      using append_thumb_prefix by blast
    moreover from ih obtain e2 where
      "fst (thumbs_loop_pw ts (append_thumb v images)) = append_thumb v images @ e2" by blast
    ultimately have "fst (thumbs_loop_pw ts (append_thumb v images)) = images @ (e1 @ e2)"
      by simp
    then have "\<exists>ext. fst (thumbs_loop_pw ts (append_thumb v images)) = images @ ext" ..
    with ih Inr show ?thesis by simp
  qed
qed

lemma append_if_http_cases:
  "append_if_http v [] = (case v of Some u \<Rightarrow> if u \<noteq> [] \<and> startswith u ''http'' then [u] else []
                                  | None \<Rightarrow> [])"
  by (simp add: append_if_http_def split: option.splits)

lemma append_if_http_inv:
  "distinct (append_if_http v []) \<and> (\<forall>u \<in> set (append_if_http v []). startswith u ''http'')"
  by (simp add: append_if_http_cases split: option.splits)

lemma extract_images_pw_inv:
  "\<exists>images. extract_images_pw page = Inr images \<and> distinct images
     \<and> (\<forall>u \<in> set images. startswith u ''http'')
     \<and> (\<forall>img h. query_selector page (selector ''images'') = Inr (Some img)
           \<and> get_attribute img ''data-old-hires'' = Inr (Some h) \<and> h \<noteq> []
           \<and> startswith h ''http'' \<longrightarrow> (\<exists>rest. images = h # rest))"
proof (cases "query_selector page (selector ''images'')")
  case (Inl e)
  then show ?thesis by (simp add: extract_images_pw_def)
next
  case q: (Inr main_img)
  define first where "first =
     (case main_img of
        Some img \<Rightarrow> (case main_img_url img of Inl e \<Rightarrow> Inl e
                     | Inr img_url \<Rightarrow> Inr (append_if_http img_url []))
      | None \<Rightarrow> Inr [])"
  show ?thesis
  proof (cases first)
    case (Inl e)
    then have "extract_images_pw page = Inr []"
      using q by (simp add: extract_images_pw_def first_def)
    moreover have "\<And>img h. main_img = Some img \<Longrightarrow>
        get_attribute img ''data-old-hires'' = Inr (Some h) \<Longrightarrow> h \<noteq> [] \<Longrightarrow> False"
      using Inl by (simp add: first_def main_img_url_def split: sum.splits)
    ultimately show ?thesis using q by auto
  next
    case (Inr images)
    have inv: "distinct images \<and> (\<forall>u \<in> set images. startswith u ''http'')"
      using Inr append_if_http_inv
      by (auto simp: first_def split: option.splits sum.splits)
    have pref: "\<And>img h. main_img = Some img \<Longrightarrow>
        get_attribute img ''data-old-hires'' = Inr (Some h) \<Longrightarrow> h \<noteq> [] \<Longrightarrow>
        startswith h ''http'' \<Longrightarrow> images = [h]"
      using Inr by (simp add: first_def main_img_url_def append_if_http_cases)
    show ?thesis
    proof (cases "query_selector_all page THUMBNAIL_SELECTOR")
      case (Inl e)
      then have "extract_images_pw page = Inr images"
        using q Inr by (simp add: extract_images_pw_def first_def)
      with inv pref q show ?thesis by auto
    next
      case t: (Inr thumbs)
      then have r: "extract_images_pw page = Inr (fst (thumbs_loop_pw thumbs images))"
        using q Inr by (simp add: extract_images_pw_def first_def)
      from inv have d: "distinct images" and h: "\<forall>u \<in> set images. startswith u ''http''"
        by simp_all
      from thumbs_loop_pw_inv [OF d h, of thumbs]
      obtain ext where l: "distinct (fst (thumbs_loop_pw thumbs images))"
        "\<forall>u \<in> set (fst (thumbs_loop_pw thumbs images)). startswith u ''http''"
        "fst (thumbs_loop_pw thumbs images) = images @ ext" by blast
      have "\<And>img h. main_img = Some img \<Longrightarrow>
        get_attribute img ''data-old-hires'' = Inr (Some h) \<Longrightarrow> h \<noteq> [] \<Longrightarrow>
        startswith h ''http'' \<Longrightarrow> \<exists>rest. fst (thumbs_loop_pw thumbs images) = h # rest"
        using pref l(3) by simp
      with r l(1,2) q show ?thesis by auto
    qed
  qed
qed

lemma thumbs_loop_pw_ok:
  "map (\<lambda>t. get_attribute t ''src'') thumbs = map Inr srcs \<Longrightarrow> distinct images \<Longrightarrow>
   thumbs_loop_pw thumbs images = (rev (remdups (rev (images @ large_urls srcs))), None)"
proof (induction thumbs arbitrary: images srcs)
  case Nil
  then show ?case by (simp add: large_urls_def distinct_remdups_id)
next
  case (Cons t ts)
  then obtain v vs where srcs: "srcs = v # vs" and t: "get_attribute t ''src'' = Inr v"
    and ts: "map (\<lambda>t. get_attribute t ''src'') ts = map Inr vs"
    by (cases srcs) auto
  note ih = Cons.IH [OF ts append_thumb_distinct [OF Cons.prems(2)], of v]
  show ?case
    unfolding srcs using ih t append_thumb_dedup [OF Cons.prems(2), of v vs] by simp
qed

lemma extract_images_pw_ok:
  assumes q: "query_selector page (selector ''images'') = Inr main_img"
    and a: "query_selector_all page THUMBNAIL_SELECTOR = Inr thumbs"
    and s: "map (\<lambda>t. get_attribute t ''src'') thumbs = map Inr srcs"
  shows "(main_img = None \<longrightarrow>
            extract_images_pw page = Inr (rev (remdups (rev (large_urls srcs)))))
     \<and> (\<forall>img h. main_img = Some img \<and> get_attribute img ''data-old-hires'' = Inr (Some h)
            \<and> h \<noteq> []
          \<longrightarrow> extract_images_pw page = Inr (rev (remdups (rev
                 ((if startswith h ''http'' then [h] else []) @ large_urls srcs)))))
     \<and> (\<forall>img v. main_img = Some img
            \<and> (get_attribute img ''data-old-hires'' = Inr None
                 \<or> get_attribute img ''data-old-hires'' = Inr (Some []))
            \<and> get_attribute img ''src'' = Inr v
          \<longrightarrow> extract_images_pw page = Inr (rev (remdups (rev
                 ((case v of Some u \<Rightarrow> if u \<noteq> [] \<and> startswith u ''http'' then [u] else []
                   | None \<Rightarrow> []) @ large_urls srcs)))))"
proof -
  have l: "\<And>M. distinct M \<Longrightarrow>
      fst (thumbs_loop_pw thumbs M) = rev (remdups (rev (M @ large_urls srcs)))"
    using thumbs_loop_pw_ok [OF s] by simp
  have d: "\<And>v. distinct (append_if_http v [])" using append_if_http_inv by blast
  show ?thesis
  proof (intro conjI allI impI; (elim conjE)?)
    assume "main_img = None"
    then show "extract_images_pw page = Inr (rev (remdups (rev (large_urls srcs))))"
      using q a l [of "[]"] by (simp add: extract_images_pw_def)
  next
    fix img h
    assume m: "main_img = Some img" and g: "get_attribute img ''data-old-hires'' = Inr (Some h)"
      and h: "h \<noteq> []"
    have u: "main_img_url img = Inr (Some h)" using g h by (simp add: main_img_url_def)
    have c: "append_if_http (Some h) [] = (if startswith h ''http'' then [h] else [])"
      using h by (simp add: append_if_http_cases)
    show "extract_images_pw page = Inr (rev (remdups (rev
                 ((if startswith h ''http'' then [h] else []) @ large_urls srcs))))"
      using q a m u l [OF d [of "Some h"]] unfolding c
      by (simp add: extract_images_pw_def c)
  next
    fix img v
    assume m: "main_img = Some img"
      and g: "get_attribute img ''data-old-hires'' = Inr None
                 \<or> get_attribute img ''data-old-hires'' = Inr (Some [])"
      and sv: "get_attribute img ''src'' = Inr v"
    have u: "main_img_url img = Inr v" using g sv by (auto simp: main_img_url_def)
    show "extract_images_pw page = Inr (rev (remdups (rev
                 ((case v of Some u \<Rightarrow> if u \<noteq> [] \<and> startswith u ''http'' then [u] else []
                   | None \<Rightarrow> []) @ large_urls srcs))))"
      using q a m u l [OF d [of v]] unfolding append_if_http_cases
      by (simp add: extract_images_pw_def append_if_http_cases)
  qed
qed

text \<open>
  C5 as the code has it: the images are pairwise distinct and each starts with \<open>http\<close>,
  the only test the scripts make, which a relative address such as \<open>httpdocs/main.jpg\<close>
  passes too.  The images are the main address followed by the rewritten thumbnail
  addresses, each kept at its first occurrence (\<open>rev (remdups (rev xs))\<close> drops every
  repetition after the first).  The main address is the attribute \<open>data-old-hires\<close> when
  that is a non-empty string, and \<open>src\<close> is then not looked at; it is \<open>src\<close> when
  \<open>data-old-hires\<close> is missing or empty; either is dropped unless it starts with \<open>http\<close>.
  In the Playwright script the same holds when the browser answers every call; when a
  call raises, the images collected before it are still distinct and start with \<open>http\<close>.
\<close>

theorem images_distinct_http:
  "distinct (extract_images soup)
   \<and> (\<forall>u \<in> set (extract_images soup). startswith u ''http'')
   \<and> (\<exists>main. extract_images soup =
          rev (remdups (rev (main @
            large_urls (map (\<lambda>t. get_attr t ''src'') (select soup THUMBNAIL_SELECTOR)))))
        \<and> (select_one soup (selector ''images'') = None \<longrightarrow> main = [])
        \<and> (\<forall>img h. select_one soup (selector ''images'') = Some img
              \<and> get_attr img ''data-old-hires'' = Some h \<and> h \<noteq> []
            \<longrightarrow> main = (if startswith h ''http'' then [h] else []))
        \<and> (\<forall>img. select_one soup (selector ''images'') = Some img
              \<and> (get_attr img ''data-old-hires'' = None
                   \<or> get_attr img ''data-old-hires'' = Some [])
            \<longrightarrow> main = (case get_attr img ''src'' of
                         Some u \<Rightarrow> if u \<noteq> [] \<and> startswith u ''http'' then [u] else []
                       | None \<Rightarrow> [])))
   \<and> (\<exists>images. extract_images_pw page = Inr images \<and> distinct images
        \<and> (\<forall>u \<in> set images. startswith u ''http'')
        \<and> (\<forall>img h. query_selector page (selector ''images'') = Inr (Some img)
              \<and> get_attribute img ''data-old-hires'' = Inr (Some h) \<and> h \<noteq> []
              \<and> startswith h ''http'' \<longrightarrow> (\<exists>rest. images = h # rest))
        \<and> (\<forall>main_img thumbs srcs.
              query_selector page (selector ''images'') = Inr main_img
              \<and> query_selector_all page THUMBNAIL_SELECTOR = Inr thumbs
              \<and> map (\<lambda>t. get_attribute t ''src'') thumbs = map Inr srcs
            \<longrightarrow> (main_img = None \<longrightarrow> images = rev (remdups (rev (large_urls srcs))))
              \<and> (\<forall>img h. main_img = Some img
                     \<and> get_attribute img ''data-old-hires'' = Inr (Some h) \<and> h \<noteq> []
                   \<longrightarrow> images = rev (remdups (rev
                          ((if startswith h ''http'' then [h] else []) @ large_urls srcs))))
              \<and> (\<forall>img v. main_img = Some img
                     \<and> (get_attribute img ''data-old-hires'' = Inr None
                          \<or> get_attribute img ''data-old-hires'' = Inr (Some []))
                     \<and> get_attribute img ''src'' = Inr v
                   \<longrightarrow> images = rev (remdups (rev
                          ((case v of
                              Some u \<Rightarrow> if u \<noteq> [] \<and> startswith u ''http'' then [u] else []
                            | None \<Rightarrow> []) @ large_urls srcs))))))"
proof -
  define main where "main =
     (case select_one soup (selector ''images'') of
        Some main_img \<Rightarrow>
          append_if_http
            (py_or (get_attr main_img ''data-old-hires'') (get_attr main_img ''src'')) []
      | None \<Rightarrow> [])"
  have e: "extract_images soup = thumbs_loop (select soup THUMBNAIL_SELECTOR) main"
    by (simp add: extract_images_def main_def)
  have d: "distinct main" and h: "\<forall>u \<in> set main. startswith u ''http''"
    using append_if_http_inv by (auto simp: main_def split: option.splits)
  note l = thumbs_loop_inv [OF d h, of "select soup THUMBNAIL_SELECTOR"]
  have m0: "select_one soup (selector ''images'') = None \<longrightarrow> main = []"
    by (simp add: main_def)
  have m1: "\<forall>img h. select_one soup (selector ''images'') = Some img
              \<and> get_attr img ''data-old-hires'' = Some h \<and> h \<noteq> []
            \<longrightarrow> main = (if startswith h ''http'' then [h] else [])"
    by (simp add: main_def py_or_def append_if_http_cases)
  have m2: "\<forall>img. select_one soup (selector ''images'') = Some img
              \<and> (get_attr img ''data-old-hires'' = None
                   \<or> get_attr img ''data-old-hires'' = Some [])
            \<longrightarrow> main = (case get_attr img ''src'' of
                         Some u \<Rightarrow> if u \<noteq> [] \<and> startswith u ''http'' then [u] else []
                       | None \<Rightarrow> [])"
    by (auto simp: main_def py_or_def append_if_http_cases)
  have "extract_images soup =
          rev (remdups (rev (main @
            large_urls (map (\<lambda>t. get_attr t ''src'') (select soup THUMBNAIL_SELECTOR)))))"
    unfolding e using l by (elim conjE)
  with m0 m1 m2 have ex: "\<exists>main. extract_images soup =
          rev (remdups (rev (main @
            large_urls (map (\<lambda>t. get_attr t ''src'') (select soup THUMBNAIL_SELECTOR)))))
        \<and> (select_one soup (selector ''images'') = None \<longrightarrow> main = [])
        \<and> (\<forall>img h. select_one soup (selector ''images'') = Some img
              \<and> get_attr img ''data-old-hires'' = Some h \<and> h \<noteq> []
            \<longrightarrow> main = (if startswith h ''http'' then [h] else []))
        \<and> (\<forall>img. select_one soup (selector ''images'') = Some img
              \<and> (get_attr img ''data-old-hires'' = None
                   \<or> get_attr img ''data-old-hires'' = Some [])
            \<longrightarrow> main = (case get_attr img ''src'' of
                         Some u \<Rightarrow> if u \<noteq> [] \<and> startswith u ''http'' then [u] else []
                       | None \<Rightarrow> []))"
    by (intro exI [of _ main] conjI)
  from l have "distinct (extract_images soup)" unfolding e by (rule conjunct1)
  moreover from l have "\<forall>u \<in> set (extract_images soup). startswith u ''http''"
    unfolding e by (elim conjE)
  moreover note ex
  moreover have "\<exists>images. extract_images_pw page = Inr images \<and> distinct images
        \<and> (\<forall>u \<in> set images. startswith u ''http'')
        \<and> (\<forall>img h. query_selector page (selector ''images'') = Inr (Some img)
              \<and> get_attribute img ''data-old-hires'' = Inr (Some h) \<and> h \<noteq> []
              \<and> startswith h ''http'' \<longrightarrow> (\<exists>rest. images = h # rest))
        \<and> (\<forall>main_img thumbs srcs.
              query_selector page (selector ''images'') = Inr main_img
              \<and> query_selector_all page THUMBNAIL_SELECTOR = Inr thumbs
              \<and> map (\<lambda>t. get_attribute t ''src'') thumbs = map Inr srcs
            \<longrightarrow> (main_img = None \<longrightarrow> images = rev (remdups (rev (large_urls srcs))))
              \<and> (\<forall>img h. main_img = Some img
                     \<and> get_attribute img ''data-old-hires'' = Inr (Some h) \<and> h \<noteq> []
                   \<longrightarrow> images = rev (remdups (rev
                          ((if startswith h ''http'' then [h] else []) @ large_urls srcs))))
              \<and> (\<forall>img v. main_img = Some img
                     \<and> (get_attribute img ''data-old-hires'' = Inr None
                          \<or> get_attribute img ''data-old-hires'' = Inr (Some []))
                     \<and> get_attribute img ''src'' = Inr v
                   \<longrightarrow> images = rev (remdups (rev
                          ((case v of
                              Some u \<Rightarrow> if u \<noteq> [] \<and> startswith u ''http'' then [u] else []
                            | None \<Rightarrow> []) @ large_urls srcs)))))"
  proof -
    from extract_images_pw_inv [of page] obtain images where
      i: "extract_images_pw page = Inr images" and di: "distinct images"
      and hi: "\<forall>u \<in> set images. startswith u ''http''"
      and pi: "\<forall>img h. query_selector page (selector ''images'') = Inr (Some img)
              \<and> get_attribute img ''data-old-hires'' = Inr (Some h) \<and> h \<noteq> []
              \<and> startswith h ''http'' \<longrightarrow> (\<exists>rest. images = h # rest)"
      by (elim exE conjE)
    have full: "\<forall>main_img thumbs srcs.
              query_selector page (selector ''images'') = Inr main_img
              \<and> query_selector_all page THUMBNAIL_SELECTOR = Inr thumbs
              \<and> map (\<lambda>t. get_attribute t ''src'') thumbs = map Inr srcs
            \<longrightarrow> (main_img = None \<longrightarrow> images = rev (remdups (rev (large_urls srcs))))
              \<and> (\<forall>img h. main_img = Some img
                     \<and> get_attribute img ''data-old-hires'' = Inr (Some h) \<and> h \<noteq> []
                   \<longrightarrow> images = rev (remdups (rev
                          ((if startswith h ''http'' then [h] else []) @ large_urls srcs))))
              \<and> (\<forall>img v. main_img = Some img
                     \<and> (get_attribute img ''data-old-hires'' = Inr None
                          \<or> get_attribute img ''data-old-hires'' = Inr (Some []))
                     \<and> get_attribute img ''src'' = Inr v
                   \<longrightarrow> images = rev (remdups (rev
                          ((case v of
                              Some u \<Rightarrow> if u \<noteq> [] \<and> startswith u ''http'' then [u] else []
                            | None \<Rightarrow> []) @ large_urls srcs))))"
    proof (intro allI impI, elim conjE)
      fix main_img thumbs srcs
      assume q: "query_selector page (selector ''images'') = Inr main_img"
        and a: "query_selector_all page THUMBNAIL_SELECTOR = Inr thumbs"
        and s: "map (\<lambda>t. get_attribute t ''src'') thumbs = map Inr srcs"
      from extract_images_pw_ok [OF q a s]
      show "(main_img = None \<longrightarrow> images = rev (remdups (rev (large_urls srcs))))
              \<and> (\<forall>img h. main_img = Some img
                     \<and> get_attribute img ''data-old-hires'' = Inr (Some h) \<and> h \<noteq> []
                   \<longrightarrow> images = rev (remdups (rev
                          ((if startswith h ''http'' then [h] else []) @ large_urls srcs))))
              \<and> (\<forall>img v. main_img = Some img
                     \<and> (get_attribute img ''data-old-hires'' = Inr None
                          \<or> get_attribute img ''data-old-hires'' = Inr (Some []))
                     \<and> get_attribute img ''src'' = Inr v
                   \<longrightarrow> images = rev (remdups (rev
                          ((case v of
                              Some u \<Rightarrow> if u \<noteq> [] \<and> startswith u ''http'' then [u] else []
                            | None \<Rightarrow> []) @ large_urls srcs))))"
        unfolding i sum.inject .
    qed
    from i di hi pi full show ?thesis by (intro exI conjI)
  qed
  ultimately show ?thesis by (intro conjI)
qed

text \<open>
  C5 as stated fails: a relative address that begins with the letters \<open>http\<close> is taken,
  in both scripts.
\<close>

theorem images_relative_counterexample:
  "extract_images relative_doc = [''httpdocs/main.jpg'']
   \<and> extract_images_pw relative_page = Inr [''httpdocs/main.jpg'']
   \<and> \<not> is_absolute_http ''httpdocs/main.jpg''"
proof -
  have b: "extract_images relative_doc = [''httpdocs/main.jpg'']"
    by (simp add: extract_images_def relative_doc_def selector_values THUMBNAIL_value
        select_one_def select_def doc_of_def get_attr_def img_tag_def py_or_def
        append_if_http_def startswith_def)
  have p: "extract_images_pw relative_page = Inr [''httpdocs/main.jpg'']"
    by (simp add: extract_images_pw_def relative_page_def selector_values THUMBNAIL_value
        page_of_def img_handle_def main_img_url_def append_if_http_def startswith_def)
  have n: "\<not> is_absolute_http ''httpdocs/main.jpg''"
    by (simp add: is_absolute_http_def startswith_def)
  show ?thesis using b p n by (intro conjI)
qed

lemma images_doc_thumbs:
  "large_urls (map (\<lambda>t. get_attr t ''src'') (select images_doc THUMBNAIL_SELECTOR))
     = [''https://m.media-amazon.com/images/I/71main._AC_SL1500_.jpg'',
        ''https://m.media-amazon.com/images/I/41abc._AC_SL1500_.jpg'',
        ''https://m.media-amazon.com/images/I/41abc._AC_SL1500_.jpg'']"
  by code_simp

lemma images_doc_main:
  "select_one images_doc (selector ''images'')
     = Some (img_tag [(''data-old-hires'', ''https://m.media-amazon.com/images/I/71main._AC_SL1500_.jpg''),
                      (''src'', ''https://m.media-amazon.com/images/I/71main._AC_SX300_.jpg'')])"
  by (simp add: images_doc_def selector_values select_one_def doc_of_def)

lemma images_page_main:
  "query_selector images_page (selector ''images'')
     = Inr (Some (img_handle [(''data-old-hires'', ''https://m.media-amazon.com/images/I/71main._AC_SL1500_.jpg''),
                      (''src'', ''https://m.media-amazon.com/images/I/71main._AC_SX300_.jpg'')]))"
  by (simp add: images_page_def selector_values page_of_def)

lemma sample_srcs_large:
  "large_urls sample_srcs
     = [''https://m.media-amazon.com/images/I/71main._AC_SL1500_.jpg'',
        ''https://m.media-amazon.com/images/I/41abc._AC_SL1500_.jpg'',
        ''https://m.media-amazon.com/images/I/41abc._AC_SL1500_.jpg'']"
  by code_simp

lemma images_page_thumbs:
  "query_selector_all images_page THUMBNAIL_SELECTOR
     = Inr [img_handle [(''src'', ''https://m.media-amazon.com/images/I/71main._SS40_.jpg'')],
          img_handle [(''src'', ''https://m.media-amazon.com/images/I/41abc._SS40_.jpg'')],
          img_handle [(''src'', ''https://m.media-amazon.com/images/I/41abc._SS40_.jpg'')],
          img_handle [(''src'', ''/images/I/51rel._SS40_.jpg'')],
          img_handle []]"
  by (simp add: images_page_def THUMBNAIL_value page_of_def)

lemma images_page_srcs:
  "map (\<lambda>t. get_attribute t ''src'')
      [img_handle [(''src'', ''https://m.media-amazon.com/images/I/71main._SS40_.jpg'')],
       img_handle [(''src'', ''https://m.media-amazon.com/images/I/41abc._SS40_.jpg'')],
       img_handle [(''src'', ''https://m.media-amazon.com/images/I/41abc._SS40_.jpg'')],
       img_handle [(''src'', ''/images/I/51rel._SS40_.jpg'')],
       img_handle []]
     = map Inr sample_srcs"
  by (simp add: img_handle_def sample_srcs_def)

theorem images_distinct_http_witness:
  "select_one images_doc (selector ''images'')
     = Some (img_tag [(''data-old-hires'', ''https://m.media-amazon.com/images/I/71main._AC_SL1500_.jpg''),
                      (''src'', ''https://m.media-amazon.com/images/I/71main._AC_SX300_.jpg'')])
   \<and> get_attr (img_tag [(''data-old-hires'', ''https://m.media-amazon.com/images/I/71main._AC_SL1500_.jpg''),
                      (''src'', ''https://m.media-amazon.com/images/I/71main._AC_SX300_.jpg'')])
         ''data-old-hires'' = Some ''https://m.media-amazon.com/images/I/71main._AC_SL1500_.jpg''
   \<and> extract_images images_doc
     = [''https://m.media-amazon.com/images/I/71main._AC_SL1500_.jpg'',
        ''https://m.media-amazon.com/images/I/41abc._AC_SL1500_.jpg'']
   \<and> query_selector images_page (selector ''images'')
     = Inr (Some (img_handle [(''data-old-hires'', ''https://m.media-amazon.com/images/I/71main._AC_SL1500_.jpg''),
                      (''src'', ''https://m.media-amazon.com/images/I/71main._AC_SX300_.jpg'')]))
   \<and> get_attribute (img_handle [(''data-old-hires'', ''https://m.media-amazon.com/images/I/71main._AC_SL1500_.jpg''),
                      (''src'', ''https://m.media-amazon.com/images/I/71main._AC_SX300_.jpg'')])
         ''data-old-hires'' = Inr (Some ''https://m.media-amazon.com/images/I/71main._AC_SL1500_.jpg'')
   \<and> query_selector_all images_page THUMBNAIL_SELECTOR
     = Inr [img_handle [(''src'', ''https://m.media-amazon.com/images/I/71main._SS40_.jpg'')],
          img_handle [(''src'', ''https://m.media-amazon.com/images/I/41abc._SS40_.jpg'')],
          img_handle [(''src'', ''https://m.media-amazon.com/images/I/41abc._SS40_.jpg'')],
          img_handle [(''src'', ''/images/I/51rel._SS40_.jpg'')],
          img_handle []]
   \<and> extract_images_pw images_page
     = Inr [''https://m.media-amazon.com/images/I/71main._AC_SL1500_.jpg'',
            ''https://m.media-amazon.com/images/I/41abc._AC_SL1500_.jpg'']"
proof -
  let ?h = "''https://m.media-amazon.com/images/I/71main._AC_SL1500_.jpg''"
  let ?img = "img_tag [(''data-old-hires'', ?h),
                      (''src'', ''https://m.media-amazon.com/images/I/71main._AC_SX300_.jpg'')]"
  let ?hd = "img_handle [(''data-old-hires'', ?h),
                      (''src'', ''https://m.media-amazon.com/images/I/71main._AC_SX300_.jpg'')]"
  let ?ths = "[img_handle [(''src'', ''https://m.media-amazon.com/images/I/71main._SS40_.jpg'')],
          img_handle [(''src'', ''https://m.media-amazon.com/images/I/41abc._SS40_.jpg'')],
          img_handle [(''src'', ''https://m.media-amazon.com/images/I/41abc._SS40_.jpg'')],
          img_handle [(''src'', ''/images/I/51rel._SS40_.jpg'')],
          img_handle []]"
  have g: "get_attr ?img ''data-old-hires'' = Some ?h"
    by (simp add: get_attr_def img_tag_def)
  have gp: "get_attribute ?hd ''data-old-hires'' = Inr (Some ?h)"
    by (simp add: img_handle_def)
  have ne: "?h \<noteq> []" by simp
  have http: "startswith ?h ''http''" by (simp add: startswith_def)
  note t = images_distinct_http [of images_doc images_page]
  from t obtain main where
    e: "extract_images images_doc =
          rev (remdups (rev (main @
            large_urls (map (\<lambda>t. get_attr t ''src'') (select images_doc THUMBNAIL_SELECTOR)))))"
    and m: "\<forall>img h. select_one images_doc (selector ''images'') = Some img
              \<and> get_attr img ''data-old-hires'' = Some h \<and> h \<noteq> []
            \<longrightarrow> main = (if startswith h ''http'' then [h] else [])"
    by (elim conjE exE)
  from m [rule_format, OF conjI [OF images_doc_main conjI [OF g ne]]] http
  have main: "main = [?h]" by (simp only: if_True)
  have b: "extract_images images_doc
     = [?h, ''https://m.media-amazon.com/images/I/41abc._AC_SL1500_.jpg'']"
    unfolding e main images_doc_thumbs by simp
  from t obtain images where
    p: "extract_images_pw images_page = Inr images"
    and pm: "\<forall>main_img thumbs srcs.
              query_selector images_page (selector ''images'') = Inr main_img
              \<and> query_selector_all images_page THUMBNAIL_SELECTOR = Inr thumbs
              \<and> map (\<lambda>t. get_attribute t ''src'') thumbs = map Inr srcs
            \<longrightarrow> (main_img = None \<longrightarrow> images = rev (remdups (rev (large_urls srcs))))
              \<and> (\<forall>img h. main_img = Some img
                     \<and> get_attribute img ''data-old-hires'' = Inr (Some h) \<and> h \<noteq> []
                   \<longrightarrow> images = rev (remdups (rev
                          ((if startswith h ''http'' then [h] else []) @ large_urls srcs))))
              \<and> (\<forall>img v. main_img = Some img
                     \<and> (get_attribute img ''data-old-hires'' = Inr None
                          \<or> get_attribute img ''data-old-hires'' = Inr (Some []))
                     \<and> get_attribute img ''src'' = Inr v
                   \<longrightarrow> images = rev (remdups (rev
                          ((case v of
                              Some u \<Rightarrow> if u \<noteq> [] \<and> startswith u ''http'' then [u] else []
                            | None \<Rightarrow> []) @ large_urls srcs))))"
    by (elim conjE exE)
  from pm [rule_format, OF conjI [OF images_page_main conjI [OF images_page_thumbs images_page_srcs]]]
  have "\<forall>img h. Some ?hd = Some img
                     \<and> get_attribute img ''data-old-hires'' = Inr (Some h) \<and> h \<noteq> []
                   \<longrightarrow> images = rev (remdups (rev
                          ((if startswith h ''http'' then [h] else []) @ large_urls sample_srcs)))"
    by (elim conjE)
  from this [rule_format, OF conjI [OF refl conjI [OF gp ne]]] http
  have "images = rev (remdups (rev ([?h] @ large_urls sample_srcs)))" by (simp only: if_True)
  then have "images = [?h, ''https://m.media-amazon.com/images/I/41abc._AC_SL1500_.jpg'']"
    unfolding sample_srcs_large by simp
  with p have c: "extract_images_pw images_page
     = Inr [?h, ''https://m.media-amazon.com/images/I/41abc._AC_SL1500_.jpg'']" by simp
  show ?thesis using images_doc_main g b images_page_main gp images_page_thumbs c
    by (intro conjI)
qed

section \<open>Isolation of the fields\<close>













































section \<open>Failure of one field is isolated\<close>




end
